theory Spec2Isabelle
  imports Complex_Main "HOL-Library.Multiset"
begin

section \<open>Floating-point values\<close>

text \<open>
  A Python float or NumPy float64 is modelled by the number it stands for: a finite real,
  or one of the IEEE special values. Arithmetic on finite values is exact (rounding and
  signed zeros are not modelled); the special values follow the IEEE rules.
\<close>

datatype npfloat = Fin real | PInf | NInf | NaN

fun fneg :: "npfloat \<Rightarrow> npfloat" where
  "fneg (Fin x) = Fin (- x)"
| "fneg PInf = NInf"
| "fneg NInf = PInf"
| "fneg NaN = NaN"

fun fadd :: "npfloat \<Rightarrow> npfloat \<Rightarrow> npfloat" where
  "fadd NaN _ = NaN"
| "fadd _ NaN = NaN"
| "fadd (Fin x) (Fin y) = Fin (x + y)"
| "fadd PInf NInf = NaN"
| "fadd NInf PInf = NaN"
| "fadd PInf _ = PInf"
| "fadd _ PInf = PInf"
| "fadd NInf _ = NInf"
| "fadd _ NInf = NInf"

definition fsub :: "npfloat \<Rightarrow> npfloat \<Rightarrow> npfloat" where
  "fsub a b = fadd a (fneg b)"

fun fmul :: "npfloat \<Rightarrow> npfloat \<Rightarrow> npfloat" where
  "fmul NaN _ = NaN"
| "fmul _ NaN = NaN"
| "fmul (Fin x) (Fin y) = Fin (x * y)"
| "fmul (Fin x) PInf = (if x = 0 then NaN else if 0 < x then PInf else NInf)"
| "fmul (Fin x) NInf = (if x = 0 then NaN else if 0 < x then NInf else PInf)"
| "fmul PInf (Fin y) = (if y = 0 then NaN else if 0 < y then PInf else NInf)"
| "fmul NInf (Fin y) = (if y = 0 then NaN else if 0 < y then NInf else PInf)"
| "fmul PInf PInf = PInf"
| "fmul NInf NInf = PInf"
| "fmul PInf NInf = NInf"
| "fmul NInf PInf = NInf"

text \<open>NumPy's true division of a float by a positive count (\<open>delta / div\<close> in \<open>np.linspace\<close>).\<close>

fun fdiv_count :: "npfloat \<Rightarrow> nat \<Rightarrow> npfloat" where
  "fdiv_count (Fin x) n = Fin (x / real n)"
| "fdiv_count PInf n = PInf"
| "fdiv_count NInf n = NInf"
| "fdiv_count NaN n = NaN"

text \<open>The IEEE comparison \<open><\<close>: false as soon as one side is NaN.\<close>

fun flt :: "npfloat \<Rightarrow> npfloat \<Rightarrow> bool" where
  "flt NaN _ = False"
| "flt _ NaN = False"
| "flt (Fin x) (Fin y) = (x < y)"
| "flt NInf NInf = False"
| "flt NInf _ = True"
| "flt _ NInf = False"
| "flt PInf _ = False"
| "flt _ PInf = True"

definition in_unit_interval :: "npfloat \<Rightarrow> bool" where
  "in_unit_interval v = (case v of Fin x \<Rightarrow> 0 \<le> x \<and> x \<le> 1 | _ \<Rightarrow> False)"

section \<open>Confidence aggregation\<close>

text \<open>
  Library functions used by \<open>mean_confidence_interval\<close>, by their documented meaning:
  \<open>np.mean\<close> is the sum divided by the count (NaN on an empty array) and
  \<open>scipy.stats.sem\<close> with its default \<open>ddof = 1\<close> is
  \<open>np.std(a, ddof=1) / np.sqrt(n)\<close> (NaN when fewer than two values are given).
\<close>

definition np_mean :: "real list \<Rightarrow> npfloat" where
  "np_mean xs = (if xs = [] then NaN else Fin (sum_list xs / real (length xs)))"

definition ss_sem :: "real list \<Rightarrow> npfloat" where
  "ss_sem xs =
     (let n = length xs in
      if n \<le> 1 then NaN
      else
        (let m = sum_list xs / real n;
             var = (\<Sum>x\<leftarrow>xs. (x - m) ^ 2) / real (n - 1)
         in Fin (sqrt var / sqrt (real n))))"

text \<open>
  \<open>mean_confidence_interval(data, confidence=0.95)\<close>. The Student t quantile
  \<open>scipy.stats.t.ppf(q, df)\<close> is a parameter \<open>t_ppf\<close>; \<open>None\<close> is Python's
  \<open>None\<close>. The scores in \<open>data\<close> are finite.
\<close>

definition default_confidence :: real where
  "default_confidence = 95 / 100"

definition mean_confidence_interval ::
  "(real \<Rightarrow> nat \<Rightarrow> npfloat) \<Rightarrow> real list \<Rightarrow> real \<Rightarrow> npfloat option \<times> npfloat option" where
  "mean_confidence_interval t_ppf data confidence =
     (let n = length data in
      if n = 0 then (None, None)
      else if n > 1 then
        (let mean = np_mean data;
             se = ss_sem data;
             conf_int = fmul se (t_ppf ((1 + confidence) / 2) (n - 1))
         in (Some mean, Some conf_int))
      else (Some (Fin (data ! 0)), Some (Fin 0)))"

text \<open>The quantities the specification names, written out.\<close>

definition arithmetic_mean :: "real list \<Rightarrow> real" where
  "arithmetic_mean xs = sum_list xs / real (length xs)"

definition sample_std :: "real list \<Rightarrow> real" where
  "sample_std xs = sqrt ((\<Sum>x\<leftarrow>xs. (x - arithmetic_mean xs) ^ 2) / real (length xs - 1))"

definition standard_error :: "real list \<Rightarrow> real" where
  "standard_error xs = sample_std xs / sqrt (real (length xs))"

text \<open>
  The one fact about the Student t distribution that the sign of the half-width rests on:
  the distribution is symmetric about 0, so its quantile at a tail probability of at least
  one half (and below one) is a finite number that is not negative.
\<close>

definition upper_quantiles_nonneg :: "(real \<Rightarrow> nat \<Rightarrow> npfloat) \<Rightarrow> bool" where
  "upper_quantiles_nonneg t_ppf =
     (\<forall>p df. 1 / 2 \<le> p \<and> p < 1 \<and> 0 < df \<longrightarrow> (\<exists>q. t_ppf p df = Fin q \<and> 0 \<le> q))"

section \<open>Errors and arrays\<close>

text \<open>
  The exceptions the modelled code can raise. \<open>ScoreException f e\<close> is the
  \<open>Exception("In f, score cannot be computed. Detailed error: repr(e)")\<close> that a metric
  function raises from its \<open>except\<close> clause; the others are raised by Python or a library
  and carry their message.
\<close>

datatype error =
    AxisError
  | ValueError string
  | KeyError string
  | NotImplementedError string
  | ScoreException string error

text \<open>
  The prediction array \<open>y_pred\<close>: one-dimensional, or two-dimensional of shape
  \<open>(length rows, k)\<close> for \<open>Array2 k rows\<close>, every row holding \<open>k\<close> finite entries.
  A label array \<open>y_true\<close> is a one-dimensional array of integers, an \<open>int list\<close>.
\<close>

datatype ndarray = Array1 "real list" | Array2 nat "real list list"

section \<open>Library functions of the metrics\<close>

text \<open>
  \<open>np.argmax\<close> walks a row from the left and moves to a new index only on a strictly
  larger entry. Along \<open>axis=1\<close> it raises \<open>AxisError\<close> on a one-dimensional array and
  \<open>ValueError\<close> when the rows have no entry.
\<close>

fun argmax_from :: "real \<Rightarrow> nat \<Rightarrow> nat \<Rightarrow> real list \<Rightarrow> nat" where
  "argmax_from best bi i [] = bi"
| "argmax_from best bi i (x # xs) =
     (if best < x then argmax_from x i (Suc i) xs else argmax_from best bi (Suc i) xs)"

definition argmax_row :: "real list \<Rightarrow> nat" where
  "argmax_row row = (case row of [] \<Rightarrow> 0 | x # xs \<Rightarrow> argmax_from x 0 1 xs)"

definition np_argmax_axis1 :: "ndarray \<Rightarrow> error + int list" where
  "np_argmax_axis1 a =
     (case a of
        Array1 v \<Rightarrow> Inl AxisError
      | Array2 k rows \<Rightarrow>
          if k = 0 then Inl (ValueError ''attempt to get argmax of an empty sequence'')
          else Inr (map (\<lambda>r. int (argmax_row r)) rows))"

text \<open>
  The functions of \<open>sklearn.metrics\<close>, on one-dimensional integer label arrays. All of
  them first check that both arrays have the same length and raise \<open>ValueError\<close>
  otherwise. \<open>accuracy_score\<close> is the mean of the indicator of agreement, NaN for no
  sample at all.
\<close>

definition inconsistent_lengths :: error where
  "inconsistent_lengths = ValueError ''Found input variables with inconsistent numbers of samples''"

definition accuracy_score :: "int list \<Rightarrow> int list \<Rightarrow> error + npfloat" where
  "accuracy_score y_true y_pred =
     (if length y_true \<noteq> length y_pred then Inl inconsistent_lengths
      else if y_true = [] then Inr NaN
      else Inr (Fin (real (length (filter (\<lambda>(t, p). t = p) (zip y_true y_pred)))
                      / real (length y_true))))"

text \<open>
  \<open>precision_score\<close>, \<open>recall_score\<close> and \<open>f1_score\<close> with \<open>average="macro"\<close> and
  \<open>zero_division=0\<close>: the classes are the labels that occur in \<open>y_true\<close> or in
  \<open>y_pred\<close>; per class, the number of true positives is divided by the number of
  predicted, of true members, and twice that number by the sum of both, a quotient with
  denominator zero counting as 0; the result is the unweighted mean over the classes
  (NaN when there is no class).
\<close>

definition unique_labels :: "int list \<Rightarrow> int list \<Rightarrow> int list" where
  "unique_labels y_true y_pred = sort (remdups (y_true @ y_pred))"

definition tp_sum :: "int list \<Rightarrow> int list \<Rightarrow> int \<Rightarrow> nat" where
  "tp_sum y_true y_pred c = length (filter (\<lambda>(t, p). t = c \<and> p = c) (zip y_true y_pred))"

definition label_count :: "int list \<Rightarrow> int \<Rightarrow> nat" where
  "label_count ys c = length (filter (\<lambda>y. y = c) ys)"

definition prf_divide :: "nat \<Rightarrow> nat \<Rightarrow> real" where
  "prf_divide numerator denominator =
     (if denominator = 0 then 0 else real numerator / real denominator)"

definition class_precision :: "int list \<Rightarrow> int list \<Rightarrow> int \<Rightarrow> real" where
  "class_precision y_true y_pred c = prf_divide (tp_sum y_true y_pred c) (label_count y_pred c)"

definition class_recall :: "int list \<Rightarrow> int list \<Rightarrow> int \<Rightarrow> real" where
  "class_recall y_true y_pred c = prf_divide (tp_sum y_true y_pred c) (label_count y_true c)"

definition class_f1 :: "int list \<Rightarrow> int list \<Rightarrow> int \<Rightarrow> real" where
  "class_f1 y_true y_pred c =
     prf_divide (2 * tp_sum y_true y_pred c) (label_count y_true c + label_count y_pred c)"

definition macro_average :: "real list \<Rightarrow> npfloat" where
  "macro_average vs = (if vs = [] then NaN else Fin (sum_list vs / real (length vs)))"

definition macro_score ::
  "(int list \<Rightarrow> int list \<Rightarrow> int \<Rightarrow> real) \<Rightarrow> int list \<Rightarrow> int list \<Rightarrow> error + npfloat" where
  "macro_score per_class y_true y_pred =
     (if length y_true \<noteq> length y_pred then Inl inconsistent_lengths
      else Inr (macro_average (map (per_class y_true y_pred) (unique_labels y_true y_pred))))"

definition f1_score :: "int list \<Rightarrow> int list \<Rightarrow> error + npfloat" where
  "f1_score = macro_score class_f1"

definition precision_score :: "int list \<Rightarrow> int list \<Rightarrow> error + npfloat" where
  "precision_score = macro_score class_precision"

definition recall_score :: "int list \<Rightarrow> int list \<Rightarrow> error + npfloat" where
  "recall_score = macro_score class_recall"

text \<open>The labels that \<open>np.argmax(y_pred, axis=1)\<close> decodes from the rows of a matrix.\<close>

definition decoded :: "real list list \<Rightarrow> int list" where
  "decoded rows = map (\<lambda>r. int (argmax_row r)) rows"

section \<open>Score functions\<close>

text \<open>
  Each score function decodes \<open>y_pred\<close> outside its \<open>try\<close> block, so an error of
  \<open>np.argmax\<close> leaves the function as it is; an error of the library metric inside the
  block is caught and raised again as a \<open>ScoreException\<close>.
\<close>

definition accuracy :: "int list \<Rightarrow> ndarray \<Rightarrow> error + npfloat" where
  "accuracy y_true y_pred =
     (case np_argmax_axis1 y_pred of
        Inl e \<Rightarrow> Inl e
      | Inr y_pred' \<Rightarrow>
          (case accuracy_score y_true y_pred' of
             Inl e \<Rightarrow> Inl (ScoreException ''accuracy'' e)
           | Inr v \<Rightarrow> Inr v))"

definition macro_f1_score :: "int list \<Rightarrow> ndarray \<Rightarrow> error + npfloat" where
  "macro_f1_score y_true y_pred =
     (case np_argmax_axis1 y_pred of
        Inl e \<Rightarrow> Inl e
      | Inr y_pred' \<Rightarrow>
          (case f1_score y_true y_pred' of
             Inl e \<Rightarrow> Inl (ScoreException ''macro_f1_score'' e)
           | Inr v \<Rightarrow> Inr v))"

definition macro_precision :: "int list \<Rightarrow> ndarray \<Rightarrow> error + npfloat" where
  "macro_precision y_true y_pred =
     (case np_argmax_axis1 y_pred of
        Inl e \<Rightarrow> Inl e
      | Inr y_pred' \<Rightarrow>
          (case precision_score y_true y_pred' of
             Inl e \<Rightarrow> Inl (ScoreException ''macro_precision'' e)
           | Inr v \<Rightarrow> Inr v))"

definition macro_recall :: "int list \<Rightarrow> ndarray \<Rightarrow> error + npfloat" where
  "macro_recall y_true y_pred =
     (case np_argmax_axis1 y_pred of
        Inl e \<Rightarrow> Inl e
      | Inr y_pred' \<Rightarrow>
          (case recall_score y_true y_pred' of
             Inl e \<Rightarrow> Inl (ScoreException ''macro_recall'' e)
           | Inr v \<Rightarrow> Inr v))"

text \<open>
  \<open>compute_all_scores\<close>: the dictionary \<open>scoring\<close> in its insertion order, and the loop
  over its keys that fills \<open>scores\<close>. The first metric that raises ends the loop.
\<close>

definition scoring :: "(string \<times> (int list \<Rightarrow> ndarray \<Rightarrow> error + npfloat)) list" where
  "scoring =
     [(''Accuracy'', accuracy),
      (''Macro F1 Score'', macro_f1_score),
      (''Macro Precision'', macro_precision),
      (''Macro Recall'', macro_recall)]"

fun compute_all_scores_loop ::
  "string list \<Rightarrow> int list \<Rightarrow> ndarray \<Rightarrow> (string \<rightharpoonup> npfloat) \<Rightarrow> error + (string \<rightharpoonup> npfloat)" where
  "compute_all_scores_loop [] y_true y_pred scores = Inr scores"
| "compute_all_scores_loop (key # keys) y_true y_pred scores =
     (case map_of scoring key of
        None \<Rightarrow> Inl (KeyError key)
      | Some scoring_function \<Rightarrow>
          (case scoring_function y_true y_pred of
             Inl e \<Rightarrow> Inl e
           | Inr v \<Rightarrow> compute_all_scores_loop keys y_true y_pred (scores(key \<mapsto> v))))"

definition compute_all_scores :: "int list \<Rightarrow> ndarray \<Rightarrow> error + (string \<rightharpoonup> npfloat)" where
  "compute_all_scores y_true y_pred =
     compute_all_scores_loop (map fst scoring) y_true y_pred Map.empty"

section \<open>Metric selection\<close>

text \<open>
  \<open>get_score\<close> reads the first line of \<open>scores.txt\<close>, strips it, and looks the name up
  with \<open>getattr\<close> in the module itself. \<open>scores_txt\<close> is the content of the file.
  The string methods are modelled on ASCII text.
\<close>

definition readline :: "string \<Rightarrow> string" where
  "readline content =
     (case dropWhile (\<lambda>c. c \<noteq> CHR 0x0A) content of
        [] \<Rightarrow> content
      | _ # _ \<Rightarrow> takeWhile (\<lambda>c. c \<noteq> CHR 0x0A) content @ [CHR 0x0A])"

definition is_space :: "char \<Rightarrow> bool" where
  "is_space c = (c \<in> set [CHR 0x09, CHR 0x0A, CHR 0x0B, CHR 0x0C, CHR 0x0D,
                           CHR 0x1C, CHR 0x1D, CHR 0x1E, CHR 0x1F, CHR 0x20])"

definition strip :: "string \<Rightarrow> string" where
  "strip s = rev (dropWhile is_space (rev (dropWhile is_space s)))"

definition replace_underscores :: "string \<Rightarrow> string" where
  "replace_underscores s = map (\<lambda>c. if c = CHR ''_'' then CHR '' '' else c) s"

definition is_lower :: "char \<Rightarrow> bool" where
  "is_lower c = (97 \<le> (of_char c :: nat) \<and> (of_char c :: nat) \<le> 122)"

definition is_upper :: "char \<Rightarrow> bool" where
  "is_upper c = (65 \<le> (of_char c :: nat) \<and> (of_char c :: nat) \<le> 90)"

definition to_upper :: "char \<Rightarrow> char" where
  "to_upper c = (if is_lower c then char_of ((of_char c :: nat) - 32) else c)"

definition to_lower :: "char \<Rightarrow> char" where
  "to_lower c = (if is_upper c then char_of ((of_char c :: nat) + 32) else c)"

text \<open>\<open>str.title()\<close>: a letter that follows no letter is put in upper case, every other
  letter in lower case.\<close>

fun title_from :: "bool \<Rightarrow> string \<Rightarrow> string" where
  "title_from previous_is_cased [] = []"
| "title_from previous_is_cased (c # cs) =
     (if is_lower c then
        (if previous_is_cased then c else to_upper c) # title_from True cs
      else if is_upper c then
        (if previous_is_cased then to_lower c else c) # title_from True cs
      else c # title_from False cs)"

definition title :: "string \<Rightarrow> string" where
  "title s = title_from False s"

text \<open>
  What a name of the module is bound to: a function the module defines, a name it
  imports, or an attribute that every module carries. The namespace lists the names the
  source file binds, in its order, then the attributes of the module object; attributes
  that a module inherits from its type are not listed.
\<close>

datatype py_object = Function string | Imported string | ModuleAttribute string

definition module_namespace :: "(string \<times> py_object) list" where
  "module_namespace =
     map (\<lambda>n. (n, Imported n))
       [''os'', ''shutil'', ''yaml'', ''base64'', ''re'', ''np'', ''pd'', ''ss'', ''sns'', ''plt'',
        ''modules'', ''ls'', ''accuracy_score'', ''f1_score'', ''precision_score'',
        ''recall_score'', ''Tuple'', ''List'', ''Callable''] @
     map (\<lambda>n. (n, Function n))
       [''vprint'', ''exist_dir'', ''print_list'', ''show_dir'', ''mvdir'', ''mkdir'',
        ''load_yaml'', ''create_path_here'', ''natural_sort'', ''read_results_file'',
        ''get_score'', ''mean_confidence_interval'', ''create_histogram'', ''create_heatmap'',
        ''accuracy'', ''macro_f1_score'', ''macro_precision'', ''macro_recall'',
        ''compute_all_scores''] @
     map (\<lambda>n. (n, ModuleAttribute n))
       [''__name__'', ''__doc__'', ''__package__'', ''__loader__'', ''__spec__'', ''__file__'',
        ''__cached__'', ''__builtins__'']"

definition get_score :: "string \<Rightarrow> error + (string \<times> py_object)" where
  "get_score scores_txt =
     (let score_name = strip (readline scores_txt) in
      case map_of module_namespace score_name of
        None \<Rightarrow> Inl (NotImplementedError score_name)
      | Some scoring_function \<Rightarrow>
          Inr (title (replace_underscores score_name), scoring_function))"

text \<open>The four names that the specification counts as metrics.\<close>

definition known_metrics :: "string list" where
  "known_metrics = [''accuracy'', ''macro_f1_score'', ''macro_precision'', ''macro_recall'']"

section \<open>Heatmap data\<close>

text \<open>
  The argument \<open>data\<close> of \<open>create_heatmap\<close>: a dictionary from group key to a dictionary
  from score name to the list of scores. A missing key is a \<open>KeyError\<close>.
\<close>

type_synonym score_table = "string \<rightharpoonup> (string \<rightharpoonup> real list)"

definition lookup_scores :: "score_table \<Rightarrow> string \<Rightarrow> string \<Rightarrow> error + real list" where
  "lookup_scores data key score_name =
     (case data key of
        None \<Rightarrow> Inl (KeyError key)
      | Some d \<Rightarrow> (case d score_name of None \<Rightarrow> Inl (KeyError score_name) | Some xs \<Rightarrow> Inr xs))"

text \<open>\<open>np.min\<close> and \<open>np.max\<close> raise \<open>ValueError\<close> on an empty array.\<close>

definition zero_size_minimum :: error where
  "zero_size_minimum =
     ValueError ''zero-size array to reduction operation minimum which has no identity''"

definition zero_size_maximum :: error where
  "zero_size_maximum =
     ValueError ''zero-size array to reduction operation maximum which has no identity''"

definition np_min :: "real list \<Rightarrow> error + real" where
  "np_min xs = (case xs of [] \<Rightarrow> Inl zero_size_minimum | x # ys \<Rightarrow> Inr (fold min ys x))"

definition np_max :: "real list \<Rightarrow> error + real" where
  "np_max xs = (case xs of [] \<Rightarrow> Inl zero_size_maximum | x # ys \<Rightarrow> Inr (fold max ys x))"

text \<open>Python's built-in \<open>min(a, b)\<close> and \<open>max(a, b)\<close>: the first argument unless the
  second is strictly smaller (larger).\<close>

definition py_min :: "npfloat \<Rightarrow> npfloat \<Rightarrow> npfloat" where
  "py_min a b = (if flt b a then b else a)"

definition py_max :: "npfloat \<Rightarrow> npfloat \<Rightarrow> npfloat" where
  "py_max a b = (if flt a b then b else a)"

text \<open>The loop over \<open>keys\<close> that narrows \<open>minimum\<close> and \<open>maximum\<close>.\<close>

fun heatmap_limits ::
  "score_table \<Rightarrow> string \<Rightarrow> string list \<Rightarrow> npfloat \<Rightarrow> npfloat \<Rightarrow> error + (npfloat \<times> npfloat)" where
  "heatmap_limits data score_name [] minimum maximum = Inr (minimum, maximum)"
| "heatmap_limits data score_name (key # keys) minimum maximum =
     (case lookup_scores data key score_name of
        Inl e \<Rightarrow> Inl e
      | Inr xs \<Rightarrow>
          (case np_min xs of
             Inl e \<Rightarrow> Inl e
           | Inr lo \<Rightarrow>
               (case np_max xs of
                  Inl e \<Rightarrow> Inl e
                | Inr hi \<Rightarrow>
                    heatmap_limits data score_name keys
                      (py_min (Fin lo) minimum) (py_max (Fin hi) maximum))))"

text \<open>
  \<open>np.linspace(start, stop, num)\<close> with the end point included: \<open>step = (stop - start) / div\<close>
  for \<open>div = num - 1\<close>, the entries \<open>i * step + start\<close> (or \<open>(i / div) * delta + start\<close> when the
  step is zero), and the last entry set to \<open>stop\<close>.
\<close>

definition np_linspace :: "npfloat \<Rightarrow> npfloat \<Rightarrow> nat \<Rightarrow> npfloat list" where
  "np_linspace start stop num =
     (let divisor = num - 1;
          delta = fsub stop start;
          y = (if 0 < divisor then
                 (let step = fdiv_count delta divisor in
                  if step = Fin 0
                  then map (\<lambda>i. fmul (Fin (real i / real divisor)) delta) [0..<num]
                  else map (\<lambda>i. fmul (Fin (real i)) step) [0..<num])
               else map (\<lambda>i. fmul (Fin (real i)) delta) [0..<num]);
          y' = map (\<lambda>v. fadd v start) y
      in if 1 < num then y'[num - 1 := stop] else y')"

text \<open>
  \<open>np.histogram(a, bins=edges)\<close> for an array of edges: the edges must not decrease;
  the counts are the differences of the cumulative counts, the number of values that
  sort before each edge, and for the last edge the number of values up to it. In the sort
  order NaN comes last.
\<close>

definition sorts_before :: "real \<Rightarrow> npfloat \<Rightarrow> bool" where
  "sorts_before x e = (case e of Fin y \<Rightarrow> x < y | PInf \<Rightarrow> True | NInf \<Rightarrow> False | NaN \<Rightarrow> True)"

definition sorts_upto :: "real \<Rightarrow> npfloat \<Rightarrow> bool" where
  "sorts_upto x e = (case e of Fin y \<Rightarrow> x \<le> y | PInf \<Rightarrow> True | NInf \<Rightarrow> False | NaN \<Rightarrow> True)"

definition search_sorted_inclusive :: "real list \<Rightarrow> npfloat list \<Rightarrow> int list" where
  "search_sorted_inclusive a edges =
     (if edges = [] then []
      else map (\<lambda>e. int (length (filter (\<lambda>x. sorts_before x e) a))) (butlast edges) @
           [int (length (filter (\<lambda>x. sorts_upto x (last edges)) a))])"

fun np_diff :: "int list \<Rightarrow> int list" where
  "np_diff (a # b # cs) = (b - a) # np_diff (b # cs)"
| "np_diff _ = []"

definition np_histogram :: "real list \<Rightarrow> npfloat list \<Rightarrow> error + int list" where
  "np_histogram a bins =
     (if list_ex (\<lambda>(l, r). flt r l) (zip (butlast bins) (tl bins))
      then Inl (ValueError ''bins must increase monotonically, when an array'')
      else Inr (np_diff (search_sorted_inclusive a bins)))"

text \<open>The list comprehension that builds one row of counts per key.\<close>

fun heatmap_rows ::
  "score_table \<Rightarrow> string \<Rightarrow> npfloat list \<Rightarrow> string list \<Rightarrow> error + int list list" where
  "heatmap_rows data score_name bins [] = Inr []"
| "heatmap_rows data score_name bins (key # keys) =
     (case lookup_scores data key score_name of
        Inl e \<Rightarrow> Inl e
      | Inr xs \<Rightarrow>
          (case np_histogram xs bins of
             Inl e \<Rightarrow> Inl e
           | Inr counts \<Rightarrow>
               (case heatmap_rows data score_name bins keys of
                  Inl e \<Rightarrow> Inl e
                | Inr rows \<Rightarrow> Inr (counts # rows))))"

text \<open>
  \<open>create_heatmap\<close>: the limits starting from \<open>(np.inf, -np.inf)\<close>, the eleven bin edges,
  the grid of counts, and then the plot. Plotting, saving and encoding the image are
  the parameter \<open>render\<close>, which receives the grid, the edges, the tick labels, the score
  name, the title and the path.
\<close>

definition heatmap_data ::
  "score_table \<Rightarrow> string list \<Rightarrow> string \<Rightarrow> error + (npfloat list \<times> int list list)" where
  "heatmap_data data keys score_name =
     (case heatmap_limits data score_name keys PInf NInf of
        Inl e \<Rightarrow> Inl e
      | Inr (minimum, maximum) \<Rightarrow>
          (let bins = np_linspace minimum maximum 11 in
           case heatmap_rows data score_name bins keys of
             Inl e \<Rightarrow> Inl e
           | Inr heatmap \<Rightarrow> Inr (bins, heatmap)))"

definition create_heatmap ::
  "(int list list \<Rightarrow> npfloat list \<Rightarrow> string list \<Rightarrow> string \<Rightarrow> string \<Rightarrow> string \<Rightarrow> error + string)
   \<Rightarrow> score_table \<Rightarrow> string list \<Rightarrow> string list \<Rightarrow> string \<Rightarrow> string \<Rightarrow> string \<Rightarrow> error + string" where
  "create_heatmap render data keys yticks score_name title' path =
     (case heatmap_data data keys score_name of
        Inl e \<Rightarrow> Inl e
      | Inr (bins, heatmap) \<Rightarrow> render heatmap bins yticks score_name title' path)"

text \<open>
  The bins as the specification describes them: eleven edges that cut the range from
  \<open>lo\<close> to \<open>hi\<close> into ten bins of equal width, and per bin the number of values in it,
  every bin without its right edge but the last.
\<close>

definition bin_edges :: "real \<Rightarrow> real \<Rightarrow> real list" where
  "bin_edges lo hi = map (\<lambda>j. lo + real j * (hi - lo) / 10) [0..<11]"

definition in_bin :: "real list \<Rightarrow> nat \<Rightarrow> real \<Rightarrow> bool" where
  "in_bin es j x =
     (es ! j \<le> x \<and> (if Suc (Suc j) = length es then x \<le> es ! Suc j else x < es ! Suc j))"

definition bin_counts :: "real list \<Rightarrow> real list \<Rightarrow> int list" where
  "bin_counts xs es = map (\<lambda>j. int (length (filter (in_bin es j) xs))) [0..<length es - 1]"

text \<open>The least and the greatest score over the collections of all listed groups.\<close>

definition global_min :: "(string \<Rightarrow> real list) \<Rightarrow> string list \<Rightarrow> real" where
  "global_min coll keys = Min (\<Union>k\<in>set keys. set (coll k))"

definition global_max :: "(string \<Rightarrow> real list) \<Rightarrow> string list \<Rightarrow> real" where
  "global_max coll keys = Max (\<Union>k\<in>set keys. set (coll k))"

text \<open>Two small tables of scores: one with distinct values, one where all values agree.\<close>

definition example_table :: score_table where
  "example_table =
     [''a'' \<mapsto> [''Accuracy'' \<mapsto> [0, 1 / 2]], ''b'' \<mapsto> [''Accuracy'' \<mapsto> [1]]]"

definition degenerate_table :: score_table where
  "degenerate_table =
     [''a'' \<mapsto> [''Accuracy'' \<mapsto> [1 / 2, 1 / 2]], ''b'' \<mapsto> [''Accuracy'' \<mapsto> [1 / 2]]]"

section \<open>The mean in float64\<close>

text \<open>
  The arithmetic of \<open>np.mean\<close> with its rounding. A float64 has 53 significant bits:
  \<open>round_f64\<close> rounds a real to the nearest such number, to the even one of two
  equally near (overflow and subnormal numbers are not modelled), and an IEEE addition
  or division is the rounding of the exact result. \<open>binary_exponent x\<close> is the \<open>e\<close> with
  \<open>2 ^ e \<le> x < 2 ^ (e + 1)\<close> for a positive \<open>x\<close>.
\<close>

fun bit_length :: "nat \<Rightarrow> nat" where
  "bit_length n = (if n = 0 then 0 else Suc (bit_length (n div 2)))"

declare bit_length.simps [simp del]

definition pow2 :: "int \<Rightarrow> real" where
  "pow2 e = (if 0 \<le> e then 2 ^ nat e else 1 / 2 ^ nat (- e))"

definition binary_exponent :: "real \<Rightarrow> int" where
  "binary_exponent x =
     (if 1 \<le> x then int (bit_length (nat \<lfloor>x\<rfloor>)) - 1
      else
        (let k = int (bit_length (nat \<lfloor>1 / x\<rfloor>)) - 1
         in if x * pow2 k = 1 then - k else - k - 1))"

definition round_half_even :: "real \<Rightarrow> int" where
  "round_half_even q =
     (let f = \<lfloor>q\<rfloor>; r = q - of_int f in
      if r < 1 / 2 then f else if 1 / 2 < r then f + 1 else if even f then f else f + 1)"

definition round_f64 :: "real \<Rightarrow> real" where
  "round_f64 x =
     (if x = 0 then 0
      else
        (let a = \<bar>x\<bar>; u = pow2 (binary_exponent a - 52)
         in sgn x * of_int (round_half_even (a / u)) * u))"

text \<open>
  \<open>np.mean\<close> of an array of fewer than eight values: the values are added one after
  the other from the left, starting from zero, and the sum is divided by the count.
\<close>

definition add_f64 :: "real \<Rightarrow> real \<Rightarrow> real" where
  "add_f64 a b = round_f64 (a + b)"

definition div_f64 :: "real \<Rightarrow> real \<Rightarrow> real" where
  "div_f64 a b = round_f64 (a / b)"

definition np_sum_f64 :: "real list \<Rightarrow> real" where
  "np_sum_f64 xs = fold (\<lambda>x res. add_f64 res x) xs 0"

definition np_mean_f64 :: "real list \<Rightarrow> real" where
  "np_mean_f64 xs = div_f64 (np_sum_f64 xs) (real (length xs))"

text \<open>The first component that \<open>mean_confidence_interval\<close> returns, with this arithmetic.\<close>

definition returned_mean_f64 :: "real list \<Rightarrow> real option" where
  "returned_mean_f64 data =
     (let n = length data in
      if n = 0 then None
      else if n > 1 then Some (np_mean_f64 data)
      else Some (data ! 0))"

section \<open>Properties\<close>

lemma ss_sem_standard_error:
  "1 < length xs \<Longrightarrow> ss_sem xs = Fin (standard_error xs)"
  by (simp add: ss_sem_def standard_error_def sample_std_def arithmetic_mean_def Let_def)

lemma np_mean_arithmetic_mean:
  "xs \<noteq> [] \<Longrightarrow> np_mean xs = Fin (arithmetic_mean xs)"
  by (simp add: np_mean_def arithmetic_mean_def)

lemma standard_error_nonneg: "0 \<le> standard_error xs"
proof -
  have "0 \<le> (\<Sum>x\<leftarrow>xs. (x - arithmetic_mean xs) ^ 2)"
    by (rule sum_list_nonneg) auto
  then show ?thesis
    by (simp add: standard_error_def sample_std_def)
qed

text \<open>
  C1. \<open>mean_confidence_interval\<close> distinguishes three cases on the number \<open>n\<close> of scores:
  for \<open>n = 0\<close> it returns \<open>(None, None)\<close>; for \<open>n = 1\<close> the single score and \<open>0.0\<close>; for
  \<open>n > 1\<close> the arithmetic mean, and the standard error (sample standard deviation over
  the square root of \<open>n\<close>) times the t quantile at \<open>(1 + confidence) / 2\<close> with \<open>n - 1\<close>
  degrees of freedom.
\<close>

theorem mean_confidence_interval_cases:
  "mean_confidence_interval t_ppf [] c = (None, None) \<and>
   mean_confidence_interval t_ppf [x] c = (Some (Fin x), Some (Fin 0)) \<and>
   (1 < length data \<longrightarrow>
      mean_confidence_interval t_ppf data c =
        (Some (Fin (arithmetic_mean data)),
         Some (fmul (Fin (sample_std data / sqrt (real (length data))))
                    (t_ppf ((1 + c) / 2) (length data - 1)))))"
proof (intro conjI impI)
  show "mean_confidence_interval t_ppf [] c = (None, None)"
    by (simp add: mean_confidence_interval_def)
  show "mean_confidence_interval t_ppf [x] c = (Some (Fin x), Some (Fin 0))"
    by (simp add: mean_confidence_interval_def)
next
  assume n: "1 < length data"
  then have ne: "data \<noteq> []" by (cases data) simp_all
  from n ne show "mean_confidence_interval t_ppf data c =
        (Some (Fin (arithmetic_mean data)),
         Some (fmul (Fin (sample_std data / sqrt (real (length data))))
                    (t_ppf ((1 + c) / 2) (length data - 1))))"
    by (simp add: mean_confidence_interval_def Let_def ss_sem_standard_error
        np_mean_arithmetic_mean [OF ne] standard_error_def)
qed

theorem mean_confidence_interval_cases_witness:
  "\<forall>t_ppf. mean_confidence_interval t_ppf [1, 2, 3] (95 / 100) =
      (Some (Fin 2), Some (fmul (Fin (1 / sqrt 3)) (t_ppf (39 / 40) 2)))"
  using mean_confidence_interval_cases [of _ _ _ "[1, 2, 3]"]
  by (simp add: arithmetic_mean_def sample_std_def numeral_2_eq_2)

text \<open>
  C4. With the default confidence level the half-width is never negative; it is exactly
  \<open>0\<close> for a single score, and absent together with the mean for no score at all.
\<close>

theorem half_width_nonneg:
  assumes "upper_quantiles_nonneg t_ppf"
  shows "(data = [] \<longrightarrow> mean_confidence_interval t_ppf data default_confidence = (None, None)) \<and>
         (length data = 1 \<longrightarrow>
            snd (mean_confidence_interval t_ppf data default_confidence) = Some (Fin 0)) \<and>
         (data \<noteq> [] \<longrightarrow>
            (\<exists>h. snd (mean_confidence_interval t_ppf data default_confidence) = Some (Fin h)
                 \<and> 0 \<le> h))"
proof (intro conjI impI)
  assume "data = []"
  then show "mean_confidence_interval t_ppf data default_confidence = (None, None)"
    by (simp add: mean_confidence_interval_def)
next
  assume "length data = 1"
  then show "snd (mean_confidence_interval t_ppf data default_confidence) = Some (Fin 0)"
    by (simp add: mean_confidence_interval_def)
next
  assume ne: "data \<noteq> []"
  show "\<exists>h. snd (mean_confidence_interval t_ppf data default_confidence) = Some (Fin h) \<and> 0 \<le> h"
  proof (cases "1 < length data")
    case False
    with ne have "length data = 1"
      by (cases data) auto
    then show ?thesis
      by (simp add: mean_confidence_interval_def)
  next
    case True
    then have df: "0 < length data - 1" by simp
    from True have ne': "data \<noteq> []" by (cases data) simp_all
    have p: "1 / 2 \<le> (1 + default_confidence) / 2 \<and> (1 + default_confidence) / 2 < 1"
      by (simp add: default_confidence_def)
    from assms p df obtain q
      where q: "t_ppf ((1 + default_confidence) / 2) (length data - 1) = Fin q" "0 \<le> q"
      unfolding upper_quantiles_nonneg_def by blast
    have "snd (mean_confidence_interval t_ppf data default_confidence)
            = Some (Fin (standard_error data * q))"
      using True q(1) ne'
      by (simp add: mean_confidence_interval_def Let_def ss_sem_standard_error)
    moreover have "0 \<le> standard_error data * q"
      using standard_error_nonneg q(2) by simp
    ultimately show ?thesis by blast
  qed
qed

theorem half_width_nonneg_witness:
  "upper_quantiles_nonneg (\<lambda>p df. Fin (43 / 10)) \<and>
   (\<exists>h. snd (mean_confidence_interval (\<lambda>p df. Fin (43 / 10)) [1, 2, 3] default_confidence)
          = Some (Fin h) \<and> 0 \<le> h)"
proof -
  have ok: "upper_quantiles_nonneg (\<lambda>p df. Fin (43 / 10))"
    unfolding upper_quantiles_nonneg_def
    by (intro allI impI exI [of _ "43 / 10"]) simp
  from half_width_nonneg [OF ok, of "[1, 2, 3]"] ok show ?thesis
    by simp
qed

lemma argmax_from_spec:
  assumes "bi < length ps" "ps ! bi = best" "\<forall>j<length ps. ps ! j \<le> best" "\<forall>j<bi. ps ! j < best"
  shows "argmax_from best bi (length ps) xs < length (ps @ xs) \<and>
         (\<forall>j<length (ps @ xs). (ps @ xs) ! j \<le> (ps @ xs) ! argmax_from best bi (length ps) xs) \<and>
         (\<forall>j<argmax_from best bi (length ps) xs. (ps @ xs) ! j < (ps @ xs) ! argmax_from best bi (length ps) xs)"
  using assms
proof (induction xs arbitrary: ps best bi)
  case Nil
  then show ?case by simp
next
  case (Cons x xs)
  show ?case
  proof (cases "best < x")
    case True
    have a: "length ps < length (ps @ [x])" by simp
    have b: "(ps @ [x]) ! length ps = x" by simp
    have c: "\<forall>j<length (ps @ [x]). (ps @ [x]) ! j \<le> x"
      using Cons.prems(3) True by (auto simp: nth_append less_Suc_eq intro: less_imp_le order_trans)
    have d: "\<forall>j<length ps. (ps @ [x]) ! j < x"
      using Cons.prems(3) True by (auto simp: nth_append intro: le_less_trans)
    from Cons.IH [OF a b c d] True show ?thesis by simp
  next
    case False
    have a: "bi < length (ps @ [x])" using Cons.prems(1) by simp
    have b: "(ps @ [x]) ! bi = best" using Cons.prems(1,2) by (simp add: nth_append)
    have c: "\<forall>j<length (ps @ [x]). (ps @ [x]) ! j \<le> best"
      using Cons.prems(3) False by (auto simp: nth_append less_Suc_eq)
    have d: "\<forall>j<bi. (ps @ [x]) ! j < best"
      using Cons.prems(1,4) by (auto simp: nth_append)
    from Cons.IH [OF a b c d] False show ?thesis by simp
  qed
qed

lemma argmax_row_first_max:
  assumes "row \<noteq> []"
  shows "argmax_row row < length row \<and>
         (\<forall>j<length row. row ! j \<le> row ! argmax_row row) \<and>
         (\<forall>j<argmax_row row. row ! j < row ! argmax_row row)"
proof -
  from assms obtain x xs where row: "row = x # xs" by (cases row) auto
  have "argmax_from x 0 (length [x]) xs < length ([x] @ xs) \<and>
         (\<forall>j<length ([x] @ xs). ([x] @ xs) ! j \<le> ([x] @ xs) ! argmax_from x 0 (length [x]) xs) \<and>
         (\<forall>j<argmax_from x 0 (length [x]) xs. ([x] @ xs) ! j < ([x] @ xs) ! argmax_from x 0 (length [x]) xs)"
    by (rule argmax_from_spec) auto
  then show ?thesis by (simp add: row argmax_row_def)
qed

lemma agreement_count:
  "length ys = length ps \<Longrightarrow>
   length (filter (\<lambda>(t, p). t = p) (zip ys ps)) = card {i. i < length ys \<and> ys ! i = ps ! i}"
proof -
  assume len: "length ys = length ps"
  have "{i. i < length (zip ys ps) \<and> (case zip ys ps ! i of (t, p) \<Rightarrow> t = p)}
        = {i. i < length ys \<and> ys ! i = ps ! i}"
    using len by auto
  then show ?thesis by (simp add: length_filter_conv_card)
qed

lemma tp_le_pred: "tp_sum ys ps c \<le> label_count ps c"
  unfolding tp_sum_def label_count_def
proof (induction ys arbitrary: ps)
  case Nil
  then show ?case by simp
next
  case (Cons y ys)
  then show ?case by (cases ps) (auto intro: le_SucI)
qed

lemma tp_le_true: "tp_sum ys ps c \<le> label_count ys c"
  unfolding tp_sum_def label_count_def
proof (induction ys arbitrary: ps)
  case Nil
  then show ?case by simp
next
  case (Cons y ys)
  then show ?case by (cases ps) (auto intro: le_SucI)
qed

lemma prf_divide_unit: "n \<le> d \<Longrightarrow> 0 \<le> prf_divide n d \<and> prf_divide n d \<le> 1"
  by (simp add: prf_divide_def)

lemma mean_unit:
  assumes "\<forall>v\<in>set vs. 0 \<le> v \<and> v \<le> (1::real)" "vs \<noteq> []"
  shows "0 \<le> sum_list vs / real (length vs) \<and> sum_list vs / real (length vs) \<le> 1"
proof -
  have "0 \<le> sum_list vs" using assms(1) by (intro sum_list_nonneg) auto
  moreover have "sum_list vs \<le> real (length vs)"
    using assms(1) by (induction vs) auto
  ultimately show ?thesis using assms(2) by (simp add: divide_le_eq)
qed


lemma macro_score_unit:
  assumes per: "\<And>c. 0 \<le> per_class y_true ps c \<and> per_class y_true ps c \<le> 1"
    and "y_true \<noteq> []" "length y_true = length ps"
  shows "\<exists>v. macro_score per_class y_true ps = Inr v \<and> in_unit_interval v"
proof -
  let ?vs = "map (per_class y_true ps) (unique_labels y_true ps)"
  have "set (unique_labels y_true ps) = set y_true \<union> set ps"
    by (simp add: unique_labels_def)
  with assms(2) have "unique_labels y_true ps \<noteq> []" by auto
  then have ne: "?vs \<noteq> []" by simp
  have "\<forall>v\<in>set ?vs. 0 \<le> v \<and> v \<le> 1" using per by auto
  from mean_unit [OF this ne] ne assms(3) show ?thesis
    by (simp add: macro_score_def macro_average_def in_unit_interval_def)
qed

lemma class_precision_unit: "0 \<le> class_precision ys ps c \<and> class_precision ys ps c \<le> 1"
  unfolding class_precision_def by (rule prf_divide_unit) (rule tp_le_pred)

lemma class_recall_unit: "0 \<le> class_recall ys ps c \<and> class_recall ys ps c \<le> 1"
  unfolding class_recall_def by (rule prf_divide_unit) (rule tp_le_true)

lemma class_f1_unit: "0 \<le> class_f1 ys ps c \<and> class_f1 ys ps c \<le> 1"
  unfolding class_f1_def
proof (rule prf_divide_unit)
  show "2 * tp_sum ys ps c \<le> label_count ys c + label_count ps c"
    using tp_le_pred [of ys ps c] tp_le_true [of ys ps c] by simp
qed

lemma accuracy_score_unit:
  assumes "y_true \<noteq> []" "length y_true = length ps"
  shows "\<exists>v. accuracy_score y_true ps = Inr v \<and> in_unit_interval v"
proof -
  have "length (filter (\<lambda>(t, p). t = p) (zip y_true ps)) \<le> length (zip y_true ps)"
    by (rule length_filter_le)
  also have "\<dots> = length y_true" using assms(2) by simp
  finally have "real (length (filter (\<lambda>(t, p). t = p) (zip y_true ps))) \<le> real (length y_true)"
    by simp
  with assms show ?thesis
    by (simp add: accuracy_score_def in_unit_interval_def divide_le_eq)
qed

text \<open>
  C2. The specification says that for every label array of length \<open>m\<close> and every
  \<open>m\<close>-row prediction matrix each of the four score functions returns a value in
  \<open>[0, 1]\<close>, and that a class whose denominator is zero contributes 0 to the macro
  average instead of raising. This fails for \<open>m = 0\<close>, where the accuracy is NaN, as
  the second theorem below shows. It holds for \<open>m \<ge> 1\<close> rows of at least one entry: the
  four scores are values in \<open>[0, 1]\<close>, and each macro score is the mean over the classes
  of the per-class quotient, read as 0 where its denominator is 0.
\<close>

theorem metrics_in_unit_interval:
  assumes "y_true \<noteq> []" "length rows = length y_true" "0 < k"
  shows "(\<exists>v. accuracy y_true (Array2 k rows) = Inr v \<and> in_unit_interval v) \<and>
         (\<exists>v. macro_f1_score y_true (Array2 k rows) = Inr v \<and> in_unit_interval v) \<and>
         (\<exists>v. macro_precision y_true (Array2 k rows) = Inr v \<and> in_unit_interval v) \<and>
         (\<exists>v. macro_recall y_true (Array2 k rows) = Inr v \<and> in_unit_interval v) \<and>
         macro_precision y_true (Array2 k rows) =
           Inr (Fin ((\<Sum>c\<leftarrow>unique_labels y_true (decoded rows).
                        if label_count (decoded rows) c = 0 then 0
                        else real (tp_sum y_true (decoded rows) c) / real (label_count (decoded rows) c))
                     / real (length (unique_labels y_true (decoded rows))))) \<and>
         macro_recall y_true (Array2 k rows) =
           Inr (Fin ((\<Sum>c\<leftarrow>unique_labels y_true (decoded rows).
                        if label_count y_true c = 0 then 0
                        else real (tp_sum y_true (decoded rows) c) / real (label_count y_true c))
                     / real (length (unique_labels y_true (decoded rows))))) \<and>
         macro_f1_score y_true (Array2 k rows) =
           Inr (Fin ((\<Sum>c\<leftarrow>unique_labels y_true (decoded rows).
                        if label_count y_true c + label_count (decoded rows) c = 0 then 0
                        else real (2 * tp_sum y_true (decoded rows) c)
                             / real (label_count y_true c + label_count (decoded rows) c))
                     / real (length (unique_labels y_true (decoded rows)))))"
proof -
  have dec: "np_argmax_axis1 (Array2 k rows) = Inr (decoded rows)"
    using assms(3) by (simp add: np_argmax_axis1_def decoded_def)
  have len: "length y_true = length (decoded rows)"
    using assms(2) by (simp add: decoded_def)
  have "set (unique_labels y_true (decoded rows)) = set y_true \<union> set (decoded rows)"
    by (simp add: unique_labels_def)
  with assms(1) have ne: "unique_labels y_true (decoded rows) \<noteq> []" by auto
  have 1: "\<exists>v. accuracy y_true (Array2 k rows) = Inr v \<and> in_unit_interval v"
    using accuracy_score_unit [OF assms(1) len] by (auto simp: accuracy_def dec)
  have 2: "\<exists>v. macro_f1_score y_true (Array2 k rows) = Inr v \<and> in_unit_interval v"
    using macro_score_unit [of class_f1, OF class_f1_unit assms(1) len]
    by (auto simp: macro_f1_score_def dec f1_score_def)
  have 3: "\<exists>v. macro_precision y_true (Array2 k rows) = Inr v \<and> in_unit_interval v"
    using macro_score_unit [of class_precision, OF class_precision_unit assms(1) len]
    by (auto simp: macro_precision_def dec precision_score_def)
  have 4: "\<exists>v. macro_recall y_true (Array2 k rows) = Inr v \<and> in_unit_interval v"
    using macro_score_unit [of class_recall, OF class_recall_unit assms(1) len]
    by (auto simp: macro_recall_def dec recall_score_def)
  have 5: "macro_precision y_true (Array2 k rows) =
           Inr (Fin ((\<Sum>c\<leftarrow>unique_labels y_true (decoded rows).
                        if label_count (decoded rows) c = 0 then 0
                        else real (tp_sum y_true (decoded rows) c) / real (label_count (decoded rows) c))
                     / real (length (unique_labels y_true (decoded rows)))))"
    using len ne
    by (simp add: macro_precision_def dec precision_score_def macro_score_def macro_average_def
        class_precision_def prf_divide_def cong: map_cong)
  have 6: "macro_recall y_true (Array2 k rows) =
           Inr (Fin ((\<Sum>c\<leftarrow>unique_labels y_true (decoded rows).
                        if label_count y_true c = 0 then 0
                        else real (tp_sum y_true (decoded rows) c) / real (label_count y_true c))
                     / real (length (unique_labels y_true (decoded rows)))))"
    using len ne
    by (simp add: macro_recall_def dec recall_score_def macro_score_def macro_average_def
        class_recall_def prf_divide_def cong: map_cong)
  have 7: "macro_f1_score y_true (Array2 k rows) =
           Inr (Fin ((\<Sum>c\<leftarrow>unique_labels y_true (decoded rows).
                        if label_count y_true c + label_count (decoded rows) c = 0 then 0
                        else real (2 * tp_sum y_true (decoded rows) c)
                             / real (label_count y_true c + label_count (decoded rows) c))
                     / real (length (unique_labels y_true (decoded rows)))))"
    using len ne
    by (simp add: macro_f1_score_def dec f1_score_def macro_score_def macro_average_def
        class_f1_def prf_divide_def cong: map_cong)
  from 1 2 3 4 5 6 7 show ?thesis by blast
qed

text \<open>No sample at all: the decoding succeeds and the accuracy is NaN.\<close>

theorem metrics_empty_input_nan:
  "accuracy [] (Array2 2 []) = Inr NaN \<and> \<not> in_unit_interval NaN"
  by (simp add: accuracy_def np_argmax_axis1_def accuracy_score_def in_unit_interval_def)


theorem metrics_in_unit_interval_witness:
  "(\<exists>v. accuracy [0, 1, 1] (Array2 2 [[1/4, 3/4], [1/4, 3/4], [1/4, 3/4]]) = Inr v \<and> in_unit_interval v) \<and>
   label_count (decoded [[1/4, 3/4], [1/4, 3/4], [1/4, 3/4]]) 0 = 0 \<and>
   macro_precision [0, 1, 1] (Array2 2 [[1/4, 3/4], [1/4, 3/4], [1/4, 3/4]]) = Inr (Fin (1 / 3))"
  using metrics_in_unit_interval [of "[0, 1, 1]" "[[1/4, 3/4], [1/4, 3/4], [1/4, 3/4]]" 2]
  by (simp add: unique_labels_def decoded_def argmax_row_def tp_sum_def label_count_def)

text \<open>
  C5. When none of the four score functions raises on \<open>(y_true, y_pred)\<close>,
  \<open>compute_all_scores\<close> returns a dictionary whose keys are exactly \<open>Accuracy\<close>,
  \<open>Macro F1 Score\<close>, \<open>Macro Precision\<close> and \<open>Macro Recall\<close>, each bound to the value of
  its score function on \<open>(y_true, y_pred)\<close>.
\<close>

theorem compute_all_scores_keys:
  assumes "accuracy y_true y_pred = Inr a" "macro_f1_score y_true y_pred = Inr f"
    "macro_precision y_true y_pred = Inr p" "macro_recall y_true y_pred = Inr r"
  shows "\<exists>scores. compute_all_scores y_true y_pred = Inr scores \<and>
           dom scores = {''Accuracy'', ''Macro F1 Score'', ''Macro Precision'', ''Macro Recall''} \<and>
           scores ''Accuracy'' = Some a \<and> scores ''Macro F1 Score'' = Some f \<and>
           scores ''Macro Precision'' = Some p \<and> scores ''Macro Recall'' = Some r"
proof -
  have "compute_all_scores y_true y_pred =
          Inr [''Accuracy'' \<mapsto> a, ''Macro F1 Score'' \<mapsto> f, ''Macro Precision'' \<mapsto> p,
               ''Macro Recall'' \<mapsto> r]"
    using assms by (simp add: compute_all_scores_def scoring_def)
  moreover have "dom [''Accuracy'' \<mapsto> a, ''Macro F1 Score'' \<mapsto> f, ''Macro Precision'' \<mapsto> p,
               ''Macro Recall'' \<mapsto> r] = {''Accuracy'', ''Macro F1 Score'', ''Macro Precision'', ''Macro Recall''}"
    by auto
  ultimately show ?thesis by simp
qed

theorem compute_all_scores_keys_witness:
  "\<exists>scores.
     compute_all_scores [0, 1, 1, 0]
       (Array2 2 [[9/10, 1/10], [1/5, 4/5], [3/10, 7/10], [3/5, 2/5]]) = Inr scores \<and>
     dom scores = {''Accuracy'', ''Macro F1 Score'', ''Macro Precision'', ''Macro Recall''} \<and>
     scores ''Accuracy'' = Some (Fin 1) \<and> scores ''Macro F1 Score'' = Some (Fin 1) \<and>
     scores ''Macro Precision'' = Some (Fin 1) \<and> scores ''Macro Recall'' = Some (Fin 1)"
proof -
  let ?y = "[0, 1, 1, 0] :: int list"
  let ?p = "Array2 2 [[9/10, 1/10], [1/5, 4/5], [3/10, 7/10], [3/5, 2/5]]"
  have a: "accuracy ?y ?p = Inr (Fin 1)"
    by (simp add: accuracy_def np_argmax_axis1_def accuracy_score_def argmax_row_def)
  have f: "macro_f1_score ?y ?p = Inr (Fin 1)"
    by (simp add: macro_f1_score_def np_argmax_axis1_def f1_score_def macro_score_def
        macro_average_def class_f1_def prf_divide_def unique_labels_def argmax_row_def
        tp_sum_def label_count_def)
  have p: "macro_precision ?y ?p = Inr (Fin 1)"
    by (simp add: macro_precision_def np_argmax_axis1_def precision_score_def macro_score_def
        macro_average_def class_precision_def prf_divide_def unique_labels_def argmax_row_def
        tp_sum_def label_count_def)
  have r: "macro_recall ?y ?p = Inr (Fin 1)"
    by (simp add: macro_recall_def np_argmax_axis1_def recall_score_def macro_score_def
        macro_average_def class_recall_def prf_divide_def unique_labels_def argmax_row_def
        tp_sum_def label_count_def)
  show ?thesis
    by (rule compute_all_scores_keys [OF a f p r])
qed

text \<open>
  C6. Every score function first decodes \<open>y_pred\<close> row by row to the index of the row's
  maximum, the first one among equal maxima, and hands the decoded labels to its library
  metric; the accuracy is the fraction of positions where the decoded label equals the
  true one, so it is 1.0 when the decoded labels are \<open>y_true\<close> and 0.0 when they differ
  from it everywhere.
\<close>

theorem first_max_decoding:
  "(row \<noteq> [] \<longrightarrow>
      argmax_row row < length row \<and>
      (\<forall>j<length row. row ! j \<le> row ! argmax_row row) \<and>
      (\<forall>j<argmax_row row. row ! j < row ! argmax_row row)) \<and>
   (0 < k \<longrightarrow> np_argmax_axis1 (Array2 k rows) = Inr (map (\<lambda>r. int (argmax_row r)) rows)) \<and>
   (np_argmax_axis1 y_pred = Inr labels \<longrightarrow>
      accuracy y_true y_pred =
        (case accuracy_score y_true labels of
           Inl e \<Rightarrow> Inl (ScoreException ''accuracy'' e) | Inr v \<Rightarrow> Inr v) \<and>
      macro_f1_score y_true y_pred =
        (case f1_score y_true labels of
           Inl e \<Rightarrow> Inl (ScoreException ''macro_f1_score'' e) | Inr v \<Rightarrow> Inr v) \<and>
      macro_precision y_true y_pred =
        (case precision_score y_true labels of
           Inl e \<Rightarrow> Inl (ScoreException ''macro_precision'' e) | Inr v \<Rightarrow> Inr v) \<and>
      macro_recall y_true y_pred =
        (case recall_score y_true labels of
           Inl e \<Rightarrow> Inl (ScoreException ''macro_recall'' e) | Inr v \<Rightarrow> Inr v)) \<and>
   (np_argmax_axis1 y_pred = Inr labels \<and> length y_true = length labels \<and> y_true \<noteq> [] \<longrightarrow>
      accuracy y_true y_pred =
        Inr (Fin (real (card {i. i < length y_true \<and> labels ! i = y_true ! i})
                  / real (length y_true)))) \<and>
   (np_argmax_axis1 y_pred = Inr y_true \<and> y_true \<noteq> [] \<longrightarrow> accuracy y_true y_pred = Inr (Fin 1)) \<and>
   (np_argmax_axis1 y_pred = Inr labels \<and> length y_true = length labels \<and> y_true \<noteq> [] \<and>
      (\<forall>i<length y_true. labels ! i \<noteq> y_true ! i) \<longrightarrow> accuracy y_true y_pred = Inr (Fin 0))"
proof -
  have p1: "row \<noteq> [] \<longrightarrow>
      argmax_row row < length row \<and>
      (\<forall>j<length row. row ! j \<le> row ! argmax_row row) \<and>
      (\<forall>j<argmax_row row. row ! j < row ! argmax_row row)"
    using argmax_row_first_max [of row] by blast
  have p2: "0 < k \<longrightarrow> np_argmax_axis1 (Array2 k rows) = Inr (map (\<lambda>r. int (argmax_row r)) rows)"
    by (simp add: np_argmax_axis1_def)
  have p3: "np_argmax_axis1 y_pred = Inr labels \<longrightarrow>
      accuracy y_true y_pred =
        (case accuracy_score y_true labels of
           Inl e \<Rightarrow> Inl (ScoreException ''accuracy'' e) | Inr v \<Rightarrow> Inr v) \<and>
      macro_f1_score y_true y_pred =
        (case f1_score y_true labels of
           Inl e \<Rightarrow> Inl (ScoreException ''macro_f1_score'' e) | Inr v \<Rightarrow> Inr v) \<and>
      macro_precision y_true y_pred =
        (case precision_score y_true labels of
           Inl e \<Rightarrow> Inl (ScoreException ''macro_precision'' e) | Inr v \<Rightarrow> Inr v) \<and>
      macro_recall y_true y_pred =
        (case recall_score y_true labels of
           Inl e \<Rightarrow> Inl (ScoreException ''macro_recall'' e) | Inr v \<Rightarrow> Inr v)"
    by (simp add: accuracy_def macro_f1_score_def macro_precision_def macro_recall_def)
  have p4: "np_argmax_axis1 y_pred = Inr labels \<and> length y_true = length labels \<and> y_true \<noteq> [] \<longrightarrow>
      accuracy y_true y_pred =
        Inr (Fin (real (card {i. i < length y_true \<and> labels ! i = y_true ! i})
                  / real (length y_true)))"
  proof
    assume a: "np_argmax_axis1 y_pred = Inr labels \<and> length y_true = length labels \<and> y_true \<noteq> []"
    have "{i. i < length y_true \<and> y_true ! i = labels ! i}
            = {i. i < length y_true \<and> labels ! i = y_true ! i}"
      by auto
    with a show "accuracy y_true y_pred =
        Inr (Fin (real (card {i. i < length y_true \<and> labels ! i = y_true ! i})
                  / real (length y_true)))"
      by (simp add: accuracy_def accuracy_score_def agreement_count)
  qed
  have p5: "np_argmax_axis1 y_pred = Inr y_true \<and> y_true \<noteq> [] \<longrightarrow> accuracy y_true y_pred = Inr (Fin 1)"
  proof
    assume a: "np_argmax_axis1 y_pred = Inr y_true \<and> y_true \<noteq> []"
    have "filter (\<lambda>(t, p). t = p) (zip y_true y_true) = zip y_true y_true"
      by (auto simp: filter_id_conv set_zip)
    with a show "accuracy y_true y_pred = Inr (Fin 1)"
      by (simp add: accuracy_def accuracy_score_def)
  qed
  have p6: "np_argmax_axis1 y_pred = Inr labels \<and> length y_true = length labels \<and> y_true \<noteq> [] \<and>
      (\<forall>i<length y_true. labels ! i \<noteq> y_true ! i) \<longrightarrow> accuracy y_true y_pred = Inr (Fin 0)"
  proof
    assume a: "np_argmax_axis1 y_pred = Inr labels \<and> length y_true = length labels \<and> y_true \<noteq> [] \<and>
      (\<forall>i<length y_true. labels ! i \<noteq> y_true ! i)"
    then have "filter (\<lambda>(t, p). t = p) (zip y_true labels) = []"
      by (auto simp: filter_empty_conv set_zip)
    with a show "accuracy y_true y_pred = Inr (Fin 0)"
      by (simp add: accuracy_def accuracy_score_def)
  qed
  show ?thesis
    by (intro conjI p1 p2 p3 p4 p5 p6)
qed

theorem first_max_decoding_witness:
  "argmax_row [1/2, 1/2] = 0 \<and>
   np_argmax_axis1 (Array2 2 [[9/10, 1/10], [1/5, 4/5], [1/2, 1/2], [3/5, 2/5]]) = Inr [0, 1, 0, 0] \<and>
   accuracy [0, 1, 1, 0] (Array2 2 [[9/10, 1/10], [1/5, 4/5], [1/2, 1/2], [3/5, 2/5]])
     = Inr (Fin (3 / 4)) \<and>
   accuracy [0, 1, 1, 0] (Array2 2 [[9/10, 1/10], [1/5, 4/5], [3/10, 7/10], [3/5, 2/5]])
     = Inr (Fin 1) \<and>
   accuracy [0, 1] (Array2 2 [[1/5, 4/5], [3/5, 2/5]]) = Inr (Fin 0)"
proof -
  have d1: "np_argmax_axis1 (Array2 2 [[9/10, 1/10], [1/5, 4/5], [3/10, 7/10], [3/5, 2/5]])
              = Inr [0, 1, 1, 0]"
    by (simp add: np_argmax_axis1_def argmax_row_def)
  have d2: "np_argmax_axis1 (Array2 2 [[1/5, 4/5], [3/5, 2/5]]) = Inr [1, 0]"
    by (simp add: np_argmax_axis1_def argmax_row_def)
  have d3: "np_argmax_axis1 (Array2 2 [[9/10, 1/10], [1/5, 4/5], [1/2, 1/2], [3/5, 2/5]])
              = Inr [0, 1, 0, 0]"
    by (simp add: np_argmax_axis1_def argmax_row_def)
  have c3: "card {i. i < length [0, 1, 1, 0 :: int] \<and> [0, 1, 0, 0 :: int] ! i = [0, 1, 1, 0] ! i} = 3"
  proof -
    have "{i. i < length [0, 1, 1, 0 :: int] \<and> [0, 1, 0, 0 :: int] ! i = [0, 1, 1, 0] ! i}
            = {0, 1, 3}"
      by (auto simp: nth_Cons' less_Suc_eq numeral_eq_Suc)
    then show ?thesis by simp
  qed
  let ?P1 = "Array2 2 [[9/10, 1/10], [1/5, 4/5], [3/10, 7/10], [3/5, 2/5]]"
  let ?P2 = "Array2 2 [[1/5, 4/5], [3/5, 2/5]]"
  let ?P3 = "Array2 2 [[9/10, 1/10], [1/5, 4/5], [1/2, 1/2], [3/5, 2/5]]"
  have "np_argmax_axis1 ?P1 = Inr [0, 1, 1, 0] \<and> [0, 1, 1, 0] \<noteq> ([] :: int list)
          \<longrightarrow> accuracy [0, 1, 1, 0] ?P1 = Inr (Fin 1)"
    using first_max_decoding [of "[1/2, 1/2]" 2 "[]" ?P1 "[0, 1, 1, 0]" "[0, 1, 1, 0]"]
    by blast
  with d1 have a1: "accuracy [0, 1, 1, 0] ?P1 = Inr (Fin 1)"
    by simp
  have "np_argmax_axis1 ?P2 = Inr [1, 0] \<and> length [0, 1 :: int] = length [1, 0 :: int] \<and>
          [0, 1] \<noteq> ([] :: int list) \<and>
          (\<forall>i<length [0, 1 :: int]. [1, 0 :: int] ! i \<noteq> [0, 1] ! i)
          \<longrightarrow> accuracy [0, 1] ?P2 = Inr (Fin 0)"
    using first_max_decoding [of "[1/2, 1/2]" 2 "[]" ?P2 "[1, 0]" "[0, 1]"]
    by blast
  with d2 have a2: "accuracy [0, 1] ?P2 = Inr (Fin 0)"
    by (simp add: nth_Cons' less_Suc_eq numeral_eq_Suc)
  have "np_argmax_axis1 ?P3 = Inr [0, 1, 0, 0] \<and>
          length [0, 1, 1, 0 :: int] = length [0, 1, 0, 0 :: int] \<and> [0, 1, 1, 0] \<noteq> ([] :: int list)
          \<longrightarrow> accuracy [0, 1, 1, 0] ?P3 =
              Inr (Fin (real (card {i. i < length [0, 1, 1, 0 :: int] \<and>
                                       [0, 1, 0, 0 :: int] ! i = [0, 1, 1, 0] ! i})
                        / real (length [0, 1, 1, 0 :: int])))"
    using first_max_decoding [of "[1/2, 1/2]" 2 "[]" ?P3 "[0, 1, 0, 0]" "[0, 1, 1, 0]"]
    by blast
  with d3 c3 have a3: "accuracy [0, 1, 1, 0] ?P3 = Inr (Fin (3 / 4))"
    by simp
  have "[1/2, 1/2] \<noteq> ([] :: real list) \<longrightarrow>
          (\<forall>j<argmax_row [1/2, 1/2]. [1/2, 1/2 :: real] ! j < [1/2, 1/2] ! argmax_row [1/2, 1/2])"
    using first_max_decoding [of "[1/2, 1/2]" 2 "[]" ?P1 "[0, 1, 1, 0]" "[0, 1, 1, 0]"]
    by blast
  then have t: "argmax_row [1/2, 1/2] = 0"
    by (simp add: argmax_row_def)
  from t d3 a3 a1 a2 show ?thesis by simp
qed

text \<open>
  C10. In every score function the decoding of \<open>y_pred\<close> stands before the \<open>try\<close> block:
  an error of the decoding (\<open>AxisError\<close> for a one-dimensional \<open>y_pred\<close>) is raised as it
  is, never as a \<open>ScoreException\<close>; once the decoding has succeeded, every error of the
  function is a \<open>ScoreException\<close> that carries the error of the library metric, as for
  a length mismatch between \<open>y_true\<close> and the decoded labels.
\<close>

theorem decoding_before_wrapping:
  "np_argmax_axis1 (Array1 v) = Inl AxisError \<and>
   (np_argmax_axis1 y_pred = Inl e \<longrightarrow>
      accuracy y_true y_pred = Inl e \<and> macro_f1_score y_true y_pred = Inl e \<and>
      macro_precision y_true y_pred = Inl e \<and> macro_recall y_true y_pred = Inl e \<and>
      (\<forall>f c. e \<noteq> ScoreException f c)) \<and>
   (np_argmax_axis1 y_pred = Inr labels \<and> length y_true \<noteq> length labels \<longrightarrow>
      accuracy y_true y_pred = Inl (ScoreException ''accuracy'' inconsistent_lengths) \<and>
      macro_f1_score y_true y_pred = Inl (ScoreException ''macro_f1_score'' inconsistent_lengths) \<and>
      macro_precision y_true y_pred = Inl (ScoreException ''macro_precision'' inconsistent_lengths) \<and>
      macro_recall y_true y_pred = Inl (ScoreException ''macro_recall'' inconsistent_lengths)) \<and>
   (np_argmax_axis1 y_pred = Inr labels \<longrightarrow>
      (accuracy y_true y_pred = Inl e' \<longrightarrow>
         (\<exists>c. accuracy_score y_true labels = Inl c \<and> e' = ScoreException ''accuracy'' c)) \<and>
      (macro_f1_score y_true y_pred = Inl e' \<longrightarrow>
         (\<exists>c. f1_score y_true labels = Inl c \<and> e' = ScoreException ''macro_f1_score'' c)) \<and>
      (macro_precision y_true y_pred = Inl e' \<longrightarrow>
         (\<exists>c. precision_score y_true labels = Inl c \<and> e' = ScoreException ''macro_precision'' c)) \<and>
      (macro_recall y_true y_pred = Inl e' \<longrightarrow>
         (\<exists>c. recall_score y_true labels = Inl c \<and> e' = ScoreException ''macro_recall'' c)))"
proof (intro conjI impI)
  show "np_argmax_axis1 (Array1 v) = Inl AxisError"
    by (simp add: np_argmax_axis1_def)
next
  assume d: "np_argmax_axis1 y_pred = Inl e"
  show "accuracy y_true y_pred = Inl e" by (simp add: accuracy_def d)
  show "macro_f1_score y_true y_pred = Inl e" by (simp add: macro_f1_score_def d)
  show "macro_precision y_true y_pred = Inl e" by (simp add: macro_precision_def d)
  show "macro_recall y_true y_pred = Inl e" by (simp add: macro_recall_def d)
  from d show "\<forall>f c. e \<noteq> ScoreException f c"
    by (auto simp: np_argmax_axis1_def split: ndarray.splits if_splits)
next
  assume d: "np_argmax_axis1 y_pred = Inr labels \<and> length y_true \<noteq> length labels"
  then show "accuracy y_true y_pred = Inl (ScoreException ''accuracy'' inconsistent_lengths)"
    by (simp add: accuracy_def accuracy_score_def)
  from d show "macro_f1_score y_true y_pred = Inl (ScoreException ''macro_f1_score'' inconsistent_lengths)"
    by (simp add: macro_f1_score_def f1_score_def macro_score_def)
  from d show "macro_precision y_true y_pred = Inl (ScoreException ''macro_precision'' inconsistent_lengths)"
    by (simp add: macro_precision_def precision_score_def macro_score_def)
  from d show "macro_recall y_true y_pred = Inl (ScoreException ''macro_recall'' inconsistent_lengths)"
    by (simp add: macro_recall_def recall_score_def macro_score_def)
next
  assume "np_argmax_axis1 y_pred = Inr labels" "accuracy y_true y_pred = Inl e'"
  then show "\<exists>c. accuracy_score y_true labels = Inl c \<and> e' = ScoreException ''accuracy'' c"
    by (auto simp: accuracy_def split: sum.splits)
next
  assume "np_argmax_axis1 y_pred = Inr labels" "macro_f1_score y_true y_pred = Inl e'"
  then show "\<exists>c. f1_score y_true labels = Inl c \<and> e' = ScoreException ''macro_f1_score'' c"
    by (auto simp: macro_f1_score_def split: sum.splits)
next
  assume "np_argmax_axis1 y_pred = Inr labels" "macro_precision y_true y_pred = Inl e'"
  then show "\<exists>c. precision_score y_true labels = Inl c \<and> e' = ScoreException ''macro_precision'' c"
    by (auto simp: macro_precision_def split: sum.splits)
next
  assume "np_argmax_axis1 y_pred = Inr labels" "macro_recall y_true y_pred = Inl e'"
  then show "\<exists>c. recall_score y_true labels = Inl c \<and> e' = ScoreException ''macro_recall'' c"
    by (auto simp: macro_recall_def split: sum.splits)
qed

theorem decoding_before_wrapping_witness:
  "accuracy [0, 1] (Array1 [1/2, 1/2]) = Inl AxisError \<and>
   macro_recall [0, 1] (Array1 [1/2, 1/2]) = Inl AxisError \<and>
   accuracy [0, 1, 1] (Array2 2 [[1/5, 4/5], [3/5, 2/5]])
     = Inl (ScoreException ''accuracy'' inconsistent_lengths) \<and>
   macro_f1_score [0, 1, 1] (Array2 2 [[1/5, 4/5], [3/5, 2/5]])
     = Inl (ScoreException ''macro_f1_score'' inconsistent_lengths)"
proof -
  have d: "np_argmax_axis1 (Array2 2 [[1/5, 4/5], [3/5, 2/5]]) = Inr [1, 0]"
    by (simp add: np_argmax_axis1_def argmax_row_def)
  have e: "np_argmax_axis1 (Array1 [1/2, 1/2]) = Inl AxisError"
    by (simp add: np_argmax_axis1_def)
  have 1: "accuracy [0, 1] (Array1 [1/2, 1/2]) = Inl AxisError \<and>
           macro_recall [0, 1] (Array1 [1/2, 1/2]) = Inl AxisError"
    using decoding_before_wrapping [of "[]" "Array1 [1/2, 1/2]" AxisError "[0, 1]" "[]"] e
    by simp
  have 2: "accuracy [0, 1, 1] (Array2 2 [[1/5, 4/5], [3/5, 2/5]])
             = Inl (ScoreException ''accuracy'' inconsistent_lengths) \<and>
           macro_f1_score [0, 1, 1] (Array2 2 [[1/5, 4/5], [3/5, 2/5]])
             = Inl (ScoreException ''macro_f1_score'' inconsistent_lengths)"
    using decoding_before_wrapping
      [of "[]" "Array2 2 [[1/5, 4/5], [3/5, 2/5]]" AxisError "[0, 1, 1]" "[1, 0]"] d
    by simp
  from 1 2 show ?thesis by simp
qed


lemma get_score_unbound_name:
  "map_of module_namespace (strip (readline scores_txt)) = None \<Longrightarrow>
   get_score scores_txt = Inl (NotImplementedError (strip (readline scores_txt)))"
  by (simp add: get_score_def)

lemma get_score_bound_name:
  "get_score scores_txt = Inr (label, f) \<Longrightarrow>
   map_of module_namespace (strip (readline scores_txt)) = Some f \<and>
   label = title (replace_underscores (strip (readline scores_txt)))"
  by (auto simp: get_score_def Let_def split: option.splits)

text \<open>
  C3. The specification says that \<open>get_score\<close> raises \<open>NotImplementedError\<close> for every
  configured name that is not one of the four metric functions, as the docstring of
  \<open>get_score\<close> does for a score that is not implemented. The lookup is \<open>getattr\<close> on the module, so
  every name the module binds resolves: the first line \<open>mkdir\<close> returns the helper
  \<open>mkdir\<close> under the label \<open>Mkdir\<close>, and \<open>np\<close> the imported NumPy module. A name the
  module does not bind raises, and a metric name resolves to its own function.
\<close>

theorem get_score_resolves_any_module_name:
  "get_score (''mkdir'' @ [CHR 0x0A]) = Inr (''Mkdir'', Function ''mkdir'') \<and>
   ''mkdir'' \<notin> set known_metrics \<and>
   get_score (''np'' @ [CHR 0x0A]) = Inr (''Np'', Imported ''np'') \<and>
   get_score (''f2_score'' @ [CHR 0x0A]) = Inl (NotImplementedError ''f2_score'') \<and>
   get_score (''macro_f1_score'' @ [CHR 0x0A]) = Inr (''Macro F1 Score'', Function ''macro_f1_score'')"
  by code_simp

text \<open>
  C9. The specification says that \<open>mean_confidence_interval\<close> returns the same pair of
  mean and half-width on every permutation of a list of scores. With the sums of
  \<open>np.mean\<close> rounded to float64 after every addition this fails, as the theorem on the
  scores 0.1, 0.2, 0.3 below shows. It holds in exact arithmetic: two lists with the same
  scores in another order have the same mean and the same half-width.
\<close>

theorem mean_confidence_interval_reordered_exact:
  assumes "mset xs = mset ys"
  shows "mean_confidence_interval t_ppf xs c = mean_confidence_interval t_ppf ys c"
proof -
  have len: "length xs = length ys"
    using assms by (rule mset_eq_length)
  have s: "sum_list xs = sum_list ys"
    using assms by (metis sum_mset_sum_list)
  have q: "(\<Sum>x\<leftarrow>xs. (x - m) ^ 2) = (\<Sum>x\<leftarrow>ys. (x - m) ^ 2)" for m
  proof -
    have "mset (map (\<lambda>x. (x - m) ^ 2) xs) = mset (map (\<lambda>x. (x - m) ^ 2) ys)"
      using assms by (metis mset_map)
    then show ?thesis by (metis sum_mset_sum_list)
  qed
  show ?thesis
  proof (cases "1 < length xs")
    case True
    then have "xs \<noteq> []" "ys \<noteq> []" using len by auto
    with True len s q show ?thesis
      by (simp add: mean_confidence_interval_def np_mean_def ss_sem_def Let_def)
  next
    case False
    then have "xs = [] \<or> (\<exists>x. xs = [x])"
      by (cases xs) auto
    with assms show ?thesis by auto
  qed
qed

theorem mean_confidence_interval_reordered_exact_witness:
  "\<forall>t_ppf c. mean_confidence_interval t_ppf [3, 1, 2] c = mean_confidence_interval t_ppf [1, 2, 3] c"
  using mean_confidence_interval_reordered_exact [of "[3, 1, 2]" "[1, 2, 3]"]
  by simp

text \<open>The rounding is to a nearest float64: the exponent brackets the number, and the
  result is at most half a unit in the last place away.\<close>

lemma bit_length_bounds:
  "0 < n \<Longrightarrow> 2 ^ (bit_length n - 1) \<le> n \<and> n < 2 ^ bit_length n"
proof (induction n rule: bit_length.induct)
  case (1 n)
  show ?case
  proof (cases "n div 2 = 0")
    case True
    with "1.prems" have "n = Suc 0" by (simp add: div_eq_0_iff)
    then show ?thesis
      by (simp add: bit_length.simps [of "Suc 0"] bit_length.simps [of 0])
  next
    case False
    then have pos: "0 < n div 2" by simp
    from "1.prems" have ne: "n \<noteq> 0" by simp
    from "1.IH" [OF ne pos]
    have ih: "2 ^ (bit_length (n div 2) - 1) \<le> n div 2" "n div 2 < 2 ^ bit_length (n div 2)"
      by simp_all
    have b: "bit_length n = Suc (bit_length (n div 2))"
      using ne by (simp add: bit_length.simps [of n])
    have bl: "0 < bit_length (n div 2)"
      using pos by (simp add: bit_length.simps [of "n div 2"])
    then have "(2::nat) ^ bit_length (n div 2) = 2 * 2 ^ (bit_length (n div 2) - 1)"
      by (cases "bit_length (n div 2)") simp_all
    with ih(1) have lo: "2 ^ bit_length (n div 2) \<le> n" by simp
    from ih(2) have hi: "n < 2 * 2 ^ bit_length (n div 2)" by simp
    from lo hi b show ?thesis by simp
  qed
qed

lemma pow2_nonneg_int: "pow2 (int n) = 2 ^ n"
  by (simp add: pow2_def)

lemma pow2_neg_int: "pow2 (- int n) = 1 / 2 ^ n"
  by (auto simp: pow2_def)

lemma pow2_pos: "0 < pow2 e"
  by (simp add: pow2_def)

lemma pow2_Suc: "pow2 (e + 1) = 2 * pow2 e"
proof (cases "0 \<le> e")
  case True
  then show ?thesis by (simp add: pow2_def nat_add_distrib)
next
  case False
  then have "e < 0" by simp
  then obtain n where e: "e = - int (Suc n)"
    using negD by blast
  have "e + 1 = - int n" using e by simp
  then show ?thesis using e by (simp only: pow2_neg_int) simp
qed

lemma floor_bit_length_bounds:
  assumes "1 \<le> (y::real)"
  shows "2 ^ (bit_length (nat \<lfloor>y\<rfloor>) - 1) \<le> y \<and> y < 2 ^ bit_length (nat \<lfloor>y\<rfloor>)"
proof -
  let ?n = "nat \<lfloor>y\<rfloor>"
  have n: "0 < ?n" using assms by simp
  have rn: "real ?n = of_int \<lfloor>y\<rfloor>" using assms by simp
  have le: "real ?n \<le> y" unfolding rn by (rule of_int_floor_le)
  have lt: "y < real ?n + 1" unfolding rn by linarith
  from bit_length_bounds [OF n] have a: "2 ^ (bit_length ?n - 1) \<le> ?n" and b: "?n < 2 ^ bit_length ?n"
    by simp_all
  from a have "real (2 ^ (bit_length ?n - 1)) \<le> real ?n"
    by (rule of_nat_mono)
  then have "(2::real) ^ (bit_length ?n - 1) \<le> real ?n" by simp
  with le have 1: "2 ^ (bit_length ?n - 1) \<le> y" by linarith
  from b have "Suc ?n \<le> 2 ^ bit_length ?n" by (rule Suc_leI)
  then have "real (Suc ?n) \<le> real (2 ^ bit_length ?n)"
    by (rule of_nat_mono)
  then have "real ?n + 1 \<le> 2 ^ bit_length ?n" by simp
  with lt have 2: "y < 2 ^ bit_length ?n" by linarith
  from 1 2 show ?thesis by simp
qed

lemma binary_exponent_bounds:
  assumes "0 < x"
  shows "pow2 (binary_exponent x) \<le> x \<and> x < pow2 (binary_exponent x + 1)"
proof (cases "1 \<le> x")
  case True
  let ?b = "bit_length (nat \<lfloor>x\<rfloor>)"
  have "0 < nat \<lfloor>x\<rfloor>" using True by simp
  then have b: "0 < ?b" by (simp add: bit_length.simps [of "nat \<lfloor>x\<rfloor>"])
  then have e: "binary_exponent x = int (?b - 1)" "binary_exponent x + 1 = int ?b"
    using True by (simp_all add: binary_exponent_def of_nat_diff)
  have p1: "pow2 (binary_exponent x) = 2 ^ (?b - 1)"
    by (simp only: e(1) pow2_nonneg_int)
  have p2: "pow2 (binary_exponent x + 1) = 2 ^ ?b"
    by (simp only: e(2) pow2_nonneg_int)
  note p = p1 p2
  from floor_bit_length_bounds [OF True] show ?thesis
    unfolding p .
next
  case False
  let ?y = "1 / x"
  let ?b = "bit_length (nat \<lfloor>?y\<rfloor>)"
  from False assms have y: "1 \<le> ?y" by simp
  then have "0 < nat \<lfloor>?y\<rfloor>" by simp
  then have b: "0 < ?b" by (simp add: bit_length.simps [of "nat \<lfloor>?y\<rfloor>"])
  define k where "k = ?b - 1"
  have kb: "?b = Suc k" using b by (simp add: k_def)
  from floor_bit_length_bounds [OF y] have lo: "2 ^ k \<le> ?y" and hi: "?y < 2 ^ Suc k"
    by (simp_all add: kb)
  from lo assms have xle: "x \<le> 1 / 2 ^ k"
    by (simp add: field_simps)
  from hi assms have xgt: "1 / 2 ^ Suc k < x"
    by (simp add: field_simps)
  have ik: "int ?b - 1 = int k" using kb by simp
  show ?thesis
  proof (cases "x * 2 ^ k = 1")
    case True
    then have xe: "x = 1 / 2 ^ k" by (simp add: field_simps)
    have e: "binary_exponent x = - int k"
      using False True by (simp add: binary_exponent_def ik pow2_nonneg_int Let_def)
    have "pow2 (- int k + 1) = 2 * pow2 (- int k)" by (rule pow2_Suc)
    then show ?thesis
      unfolding e using xe assms by (simp add: pow2_neg_int divide_strict_right_mono)
  next
    case ne: False
    have "x \<noteq> 1 / 2 ^ k"
    proof
      assume "x = 1 / 2 ^ k"
      then have "x * 2 ^ k = 1" by simp
      with ne show False by contradiction
    qed
    with xle have xlt: "x < 1 / 2 ^ k" by simp
    have e: "binary_exponent x = - int (Suc k)"
      using False ne by (simp add: binary_exponent_def ik pow2_nonneg_int Let_def)
    have "- int (Suc k) + 1 = - int k" by simp
    then show ?thesis
      unfolding e using xgt xlt by (simp only: pow2_neg_int) simp
  qed
qed

lemma round_half_even_nearest: "\<bar>real_of_int (round_half_even q) - q\<bar> \<le> 1 / 2"
  unfolding round_half_even_def Let_def by (auto simp: abs_le_iff)

lemma round_f64_nearest:
  assumes "x \<noteq> 0"
  shows "\<bar>round_f64 x - x\<bar> \<le> pow2 (binary_exponent \<bar>x\<bar> - 52) / 2"
proof -
  let ?u = "pow2 (binary_exponent \<bar>x\<bar> - 52)"
  let ?r = "real_of_int (round_half_even (\<bar>x\<bar> / ?u))"
  have u: "0 < ?u" by (rule pow2_pos)
  have r: "round_f64 x = sgn x * ?r * ?u"
    using assms by (simp add: round_f64_def Let_def)
  have "x = sgn x * (\<bar>x\<bar> / ?u) * ?u"
    using u by (simp add: sgn_mult_abs)
  then have "round_f64 x - x = sgn x * (?r - \<bar>x\<bar> / ?u) * ?u"
    unfolding r by (simp add: algebra_simps)
  then have "\<bar>round_f64 x - x\<bar> = \<bar>?r - \<bar>x\<bar> / ?u\<bar> * ?u"
    using assms u by (simp add: abs_mult abs_sgn_eq)
  also have "\<dots> \<le> (1 / 2) * ?u"
    using round_half_even_nearest [of "\<bar>x\<bar> / ?u"] u by (intro mult_right_mono) simp_all
  finally show ?thesis by simp
qed

text \<open>The float64 numbers nearest to 0.1, 0.2 and 0.3, and the sums and quotients of the
  two orders.\<close>

lemma f64_tenth: "round_f64 (1 / 10) = 3602879701896397 / 36028797018963968"
  by code_simp

lemma f64_fifth: "round_f64 (1 / 5) = 3602879701896397 / 18014398509481984"
  by code_simp

lemma f64_three_tenths: "round_f64 (3 / 10) = 5404319552844595 / 18014398509481984"
  by code_simp

lemma f64_steps:
  "add_f64 0 (3602879701896397 / 36028797018963968) = 3602879701896397 / 36028797018963968"
  "add_f64 (3602879701896397 / 36028797018963968) (3602879701896397 / 18014398509481984) = 1351079888211149 / 4503599627370496"
  "add_f64 (1351079888211149 / 4503599627370496) (5404319552844595 / 18014398509481984) = 1351079888211149 / 2251799813685248"
  "div_f64 (1351079888211149 / 2251799813685248) 3 = 7205759403792795 / 36028797018963968"
  "add_f64 0 (5404319552844595 / 18014398509481984) = 5404319552844595 / 18014398509481984"
  "add_f64 (5404319552844595 / 18014398509481984) (3602879701896397 / 18014398509481984) = 1 / 2"
  "add_f64 (1 / 2) (3602879701896397 / 36028797018963968) = 5404319552844595 / 9007199254740992"
  "div_f64 (5404319552844595 / 9007199254740992) 3 = 7205759403792793 / 36028797018963968"
  by code_simp+

text \<open>
  The scores 0.1, 0.2, 0.3 and the same scores in reverse order: the returned means are
  \<open>0.20000000000000004\<close> and \<open>0.19999999999999998\<close>.
\<close>

theorem reordered_mean_differs_f64:
  "returned_mean_f64 [round_f64 (1 / 10), round_f64 (2 / 10), round_f64 (3 / 10)]
     = Some (7205759403792795 / 2 ^ 55) \<and>
   returned_mean_f64 [round_f64 (3 / 10), round_f64 (2 / 10), round_f64 (1 / 10)]
     = Some (7205759403792793 / 2 ^ 55) \<and>
   returned_mean_f64 [round_f64 (1 / 10), round_f64 (2 / 10), round_f64 (3 / 10)]
     \<noteq> returned_mean_f64 [round_f64 (3 / 10), round_f64 (2 / 10), round_f64 (1 / 10)]"
  by (simp add: returned_mean_f64_def np_mean_f64_def np_sum_f64_def
      f64_tenth f64_fifth f64_three_tenths f64_steps)

lemma fold_min_acc: "fold min ys (min x a) = min (fold min ys x) (a::real)"
  by (induction ys arbitrary: x) (simp_all add: min.assoc [symmetric])

lemma fold_max_acc: "fold max ys (max x a) = max (fold max ys x) (a::real)"
  by (induction ys arbitrary: x) (simp_all add: max.assoc [symmetric])

lemma py_min_Fin: "py_min (Fin lo) (Fin a) = Fin (min lo a)"
  by (simp add: py_min_def min_def)

lemma py_max_Fin: "py_max (Fin hi) (Fin b) = Fin (max hi b)"
  by (simp add: py_max_def max_def)

lemma heatmap_limits_finite:
  assumes "\<forall>k\<in>set ks. lookup_scores data k s = Inr (coll k) \<and> coll k \<noteq> []"
  shows "heatmap_limits data s ks (Fin a) (Fin b) =
           Inr (Fin (fold min (concat (map coll ks)) a), Fin (fold max (concat (map coll ks)) b))"
  using assms
proof (induction ks arbitrary: a b)
  case Nil
  then show ?case by simp
next
  case (Cons k ks)
  from Cons.prems obtain x ys where c: "coll k = x # ys" and l: "lookup_scores data k s = Inr (x # ys)"
    by (cases "coll k") auto
  from Cons.prems have rest: "\<forall>k\<in>set ks. lookup_scores data k s = Inr (coll k) \<and> coll k \<noteq> []"
    by simp
  show ?case
    by (simp add: l c np_min_def np_max_def py_min_Fin py_max_Fin Cons.IH [OF rest]
        fold_min_acc fold_max_acc)
qed

lemma heatmap_limits_start:
  assumes "\<forall>k\<in>set ks. lookup_scores data k s = Inr (coll k) \<and> coll k \<noteq> []" "ks \<noteq> []"
  shows "heatmap_limits data s ks PInf NInf =
           Inr (Fin (Min (\<Union>k\<in>set ks. set (coll k))), Fin (Max (\<Union>k\<in>set ks. set (coll k))))"
proof -
  from assms(2) obtain k ks' where ks: "ks = k # ks'" by (cases ks) auto
  from assms(1) ks obtain x ys where c: "coll k = x # ys" and l: "lookup_scores data k s = Inr (x # ys)"
    by (cases "coll k") auto
  from assms(1) ks have rest: "\<forall>k\<in>set ks'. lookup_scores data k s = Inr (coll k) \<and> coll k \<noteq> []"
    by simp
  have u: "(\<Union>k\<in>set ks. set (coll k)) = set (x # (ys @ concat (map coll ks')))"
    by (auto simp: ks c)
  have "heatmap_limits data s ks PInf NInf =
          Inr (Fin (fold min (ys @ concat (map coll ks')) x), Fin (fold max (ys @ concat (map coll ks')) x))"
    by (simp add: ks l np_min_def np_max_def py_min_def py_max_def heatmap_limits_finite [OF rest])
  then show ?thesis
    unfolding u Min.set_eq_fold Max.set_eq_fold .
qed

lemma np_linspace_finite: "np_linspace (Fin a) (Fin b) 11 = map Fin (bin_edges a b)"
proof (rule nth_equalityI)
  show "length (np_linspace (Fin a) (Fin b) 11) = length (map Fin (bin_edges a b))"
    by (simp add: np_linspace_def bin_edges_def Let_def)
next
  fix i assume "i < length (np_linspace (Fin a) (Fin b) 11)"
  then have i: "i < 11" by (simp add: np_linspace_def Let_def split: if_split_asm)
  show "np_linspace (Fin a) (Fin b) 11 ! i = map Fin (bin_edges a b) ! i"
  proof (cases "i = 10")
    case True
    then show ?thesis
      by (simp add: np_linspace_def bin_edges_def Let_def fsub_def diff_divide_distrib)
  next
    case False
    with i show ?thesis
      by (simp add: np_linspace_def bin_edges_def Let_def fsub_def nth_list_update field_simps)
  qed
qed

lemma np_diff_length: "length (np_diff cs) = length cs - 1"
  by (induction cs rule: np_diff.induct) simp_all

lemma np_diff_nth: "Suc j < length cs \<Longrightarrow> np_diff cs ! j = cs ! Suc j - cs ! j"
proof (induction cs arbitrary: j rule: np_diff.induct)
  case (1 a b cs)
  then show ?case by (cases j) simp_all
qed simp_all

lemma count_difference:
  assumes "\<And>x. Q x \<Longrightarrow> P x"
  shows "int (length (filter P xs)) - int (length (filter Q xs))
           = int (length (filter (\<lambda>x. \<not> Q x \<and> P x) xs))"
  using assms by (induction xs) auto

lemma monotone_check_sorted:
  assumes "sorted es"
  shows "\<not> list_ex (\<lambda>(l, r). flt r l) (zip (butlast (map Fin es)) (tl (map Fin es)))"
proof -
  have "\<not> flt r l" if "(l, r) \<in> set (zip (butlast (map Fin es)) (tl (map Fin es)))" for l r
  proof -
    from that obtain i where i: "i < length es - 1"
      "l = butlast (map Fin es) ! i" "r = tl (map Fin es) ! i"
      by (auto simp: in_set_zip)
    then have "l = Fin (es ! i)" "r = Fin (es ! Suc i)"
      by (simp_all add: nth_butlast nth_tl)
    moreover have "es ! i \<le> es ! Suc i"
      using assms i(1) by (intro sorted_nth_mono) auto
    ultimately show ?thesis by simp
  qed
  then show ?thesis by (auto simp: list_ex_iff)
qed

lemma np_histogram_sorted:
  assumes "sorted es"
  shows "np_histogram xs (map Fin es) = Inr (bin_counts xs es)"
proof (cases "es = []")
  case True
  then show ?thesis
    by (simp add: np_histogram_def search_sorted_inclusive_def bin_counts_def)
next
  case False
  let ?cum = "search_sorted_inclusive xs (map Fin es)"
  have len: "length ?cum = length es"
    using False by (simp add: search_sorted_inclusive_def)
  have lo: "?cum ! j = int (length (filter (\<lambda>x. x < es ! j) xs))" if "Suc j < length es" for j
  proof -
    from that have "j < length (butlast es)" by simp
    then show ?thesis
      using False
      by (simp add: search_sorted_inclusive_def nth_append nth_butlast sorts_before_def map_butlast [symmetric])
  qed
  have hi: "?cum ! j = int (length (filter (\<lambda>x. x \<le> es ! j) xs))" if "Suc j = length es" for j
    using that False
    by (auto simp: search_sorted_inclusive_def nth_append sorts_upto_def last_conv_nth
        simp flip: that)
  have "np_diff ?cum = bin_counts xs es"
  proof (rule nth_equalityI)
    show "length (np_diff ?cum) = length (bin_counts xs es)"
      by (simp add: np_diff_length len bin_counts_def)
  next
    fix j assume "j < length (np_diff ?cum)"
    then have j: "Suc j < length es" by (simp add: np_diff_length len)
    have le: "es ! j \<le> es ! Suc j"
      using assms j by (intro sorted_nth_mono) auto
    have d: "np_diff ?cum ! j = ?cum ! Suc j - ?cum ! j"
      using j by (simp add: np_diff_nth len)
    show "np_diff ?cum ! j = bin_counts xs es ! j"
    proof (cases "Suc (Suc j) = length es")
      case True
      have "int (length (filter (\<lambda>x. x \<le> es ! Suc j) xs)) - int (length (filter (\<lambda>x. x < es ! j) xs))
              = int (length (filter (\<lambda>x. \<not> x < es ! j \<and> x \<le> es ! Suc j) xs))"
        using le by (intro count_difference) auto
      moreover have "(\<lambda>x. \<not> x < es ! j \<and> x \<le> es ! Suc j) = in_bin es j"
        using True by (auto simp: in_bin_def fun_eq_iff)
      ultimately show ?thesis
        using j True by (simp add: d hi [OF True] lo [OF j] bin_counts_def)
    next
      case False
      with j have j2: "Suc (Suc j) < length es" by simp
      have "int (length (filter (\<lambda>x. x < es ! Suc j) xs)) - int (length (filter (\<lambda>x. x < es ! j) xs))
              = int (length (filter (\<lambda>x. \<not> x < es ! j \<and> x < es ! Suc j) xs))"
        using le by (intro count_difference) auto
      moreover have "(\<lambda>x. \<not> x < es ! j \<and> x < es ! Suc j) = in_bin es j"
        using False by (auto simp: in_bin_def fun_eq_iff)
      moreover from j have "j < length es - 1" by simp
      ultimately show ?thesis
        using j by (simp add: d lo [OF j2] lo [OF j] bin_counts_def)
    qed
  qed
  with monotone_check_sorted [OF assms] show ?thesis
    by (simp add: np_histogram_def)
qed

lemma heatmap_rows_sorted:
  assumes "\<forall>k\<in>set ks. lookup_scores data k s = Inr (coll k)" "sorted es"
  shows "heatmap_rows data s (map Fin es) ks = Inr (map (\<lambda>k. bin_counts (coll k) es) ks)"
  using assms(1) by (induction ks) (simp_all add: np_histogram_sorted [OF assms(2)])

lemma sorted_bin_edges: "lo \<le> hi \<Longrightarrow> sorted (bin_edges lo hi)"
  unfolding bin_edges_def
  by (auto simp: sorted_iff_nth_mono intro!: mult_right_mono divide_right_mono add_left_mono)

lemma heatmap_data_finite:
  assumes "\<forall>k\<in>set keys. lookup_scores data k s = Inr (coll k) \<and> coll k \<noteq> []" "keys \<noteq> []"
  shows "heatmap_data data keys s =
           Inr (map Fin (bin_edges (Min (\<Union>k\<in>set keys. set (coll k))) (Max (\<Union>k\<in>set keys. set (coll k)))),
                map (\<lambda>k. bin_counts (coll k)
                       (bin_edges (Min (\<Union>k\<in>set keys. set (coll k))) (Max (\<Union>k\<in>set keys. set (coll k))))) keys)"
proof -
  let ?U = "\<Union>k\<in>set keys. set (coll k)"
  from assms obtain k where "k \<in> set keys" "coll k \<noteq> []" by (cases keys) auto
  then have ne: "?U \<noteq> {}" by auto
  have fin: "finite ?U" by simp
  from ne obtain x where x: "x \<in> ?U" by blast
  have "Min ?U \<le> x" using fin x by (rule Min_le)
  moreover have "x \<le> Max ?U" using fin x by (rule Max_ge)
  ultimately have "Min ?U \<le> Max ?U" by (rule order_trans)
  then have srt: "sorted (bin_edges (Min ?U) (Max ?U))"
    by (rule sorted_bin_edges)
  have rows: "\<forall>k\<in>set keys. lookup_scores data k s = Inr (coll k)"
    using assms(1) by simp
  show ?thesis
    by (simp add: heatmap_data_def heatmap_limits_start [OF assms] np_linspace_finite
        heatmap_rows_sorted [OF rows srt])
qed


lemma bin_edges_props:
  "length (bin_edges lo hi) = 11 \<and> bin_edges lo hi ! 0 = lo \<and> bin_edges lo hi ! 10 = hi \<and>
   (\<forall>j<10. bin_edges lo hi ! Suc j - bin_edges lo hi ! j = (hi - lo) / 10)"
  by (simp add: bin_edges_def diff_divide_distrib add_divide_distrib algebra_simps)

text \<open>
  C8. For a key list of length at least 2 whose groups all have a non-empty collection,
  \<open>create_heatmap\<close> computes one set of eleven edges, ten bins of equal width from the
  least to the greatest score over all groups, counts per group the scores in each bin
  against these shared edges, and hands the plot a grid whose row \<open>i\<close> holds the counts
  of the group \<open>keys ! i\<close>.
\<close>

theorem heatmap_shared_bins:
  assumes "2 \<le> length keys"
    and "\<forall>k\<in>set keys. lookup_scores data k s = Inr (coll k) \<and> coll k \<noteq> []"
  shows "heatmap_data data keys s =
           Inr (map Fin (bin_edges (global_min coll keys) (global_max coll keys)),
                map (\<lambda>k. bin_counts (coll k) (bin_edges (global_min coll keys) (global_max coll keys))) keys) \<and>
         create_heatmap render data keys yticks s title' path =
           render (map (\<lambda>k. bin_counts (coll k) (bin_edges (global_min coll keys) (global_max coll keys))) keys)
                  (map Fin (bin_edges (global_min coll keys) (global_max coll keys))) yticks s title' path \<and>
         (\<forall>i<length keys.
            map (\<lambda>k. bin_counts (coll k) (bin_edges (global_min coll keys) (global_max coll keys))) keys ! i
              = bin_counts (coll (keys ! i)) (bin_edges (global_min coll keys) (global_max coll keys))) \<and>
         length (bin_edges (global_min coll keys) (global_max coll keys)) = 11 \<and>
         bin_edges (global_min coll keys) (global_max coll keys) ! 0 = global_min coll keys \<and>
         bin_edges (global_min coll keys) (global_max coll keys) ! 10 = global_max coll keys \<and>
         (\<forall>j<10. bin_edges (global_min coll keys) (global_max coll keys) ! Suc j
                  - bin_edges (global_min coll keys) (global_max coll keys) ! j
                  = (global_max coll keys - global_min coll keys) / 10)"
proof -
  from assms(1) have ne: "keys \<noteq> []" by auto
  have d: "heatmap_data data keys s =
           Inr (map Fin (bin_edges (global_min coll keys) (global_max coll keys)),
                map (\<lambda>k. bin_counts (coll k) (bin_edges (global_min coll keys) (global_max coll keys))) keys)"
    unfolding global_min_def global_max_def by (rule heatmap_data_finite [OF assms(2) ne])
  have c: "create_heatmap render data keys yticks s title' path =
           render (map (\<lambda>k. bin_counts (coll k) (bin_edges (global_min coll keys) (global_max coll keys))) keys)
                  (map Fin (bin_edges (global_min coll keys) (global_max coll keys))) yticks s title' path"
    by (simp add: create_heatmap_def d)
  have r: "\<forall>i<length keys.
            map (\<lambda>k. bin_counts (coll k) (bin_edges (global_min coll keys) (global_max coll keys))) keys ! i
              = bin_counts (coll (keys ! i)) (bin_edges (global_min coll keys) (global_max coll keys))"
    by simp
  from d c r bin_edges_props [of "global_min coll keys" "global_max coll keys"] show ?thesis
    by blast
qed

lemma np_linspace_inverted: "np_linspace PInf NInf 11 = replicate 10 NaN @ [NInf]"
proof (rule nth_equalityI)
  show "length (np_linspace PInf NInf 11) = length (replicate 10 NaN @ [NInf])"
    by (simp add: np_linspace_def Let_def fsub_def)
next
  fix i assume "i < length (np_linspace PInf NInf 11)"
  then have i: "i < 11" by (simp add: np_linspace_def Let_def fsub_def)
  show "np_linspace PInf NInf 11 ! i = (replicate 10 NaN @ [NInf]) ! i"
  proof (cases "i = 10")
    case True
    then show ?thesis
      by (simp add: np_linspace_def Let_def fsub_def nth_append)
  next
    case False
    with i have "i < 10" by simp
    then show ?thesis
      by (simp add: np_linspace_def Let_def fsub_def nth_append nth_list_update)
  qed
qed

lemma heatmap_limits_empty_collection:
  assumes "\<forall>k\<in>set ks. \<exists>xs. lookup_scores data k s = Inr xs"
    and "\<exists>k\<in>set ks. lookup_scores data k s = Inr []"
  shows "heatmap_limits data s ks mn mx = Inl zero_size_minimum"
  using assms
proof (induction ks arbitrary: mn mx)
  case Nil
  then show ?case by simp
next
  case (Cons k ks)
  from Cons.prems(1) obtain xs where l: "lookup_scores data k s = Inr xs" by auto
  show ?case
  proof (cases xs)
    case Nil
    with l show ?thesis by (simp add: np_min_def)
  next
    case (Cons x ys)
    with l Cons.prems(2) have "\<exists>k\<in>set ks. lookup_scores data k s = Inr []" by auto
    moreover from Cons.prems(1) have "\<forall>k\<in>set ks. \<exists>xs. lookup_scores data k s = Inr xs" by simp
    ultimately have "heatmap_limits data s ks mn' mx' = Inl zero_size_minimum" for mn' mx'
      by (rule Cons.IH [rotated])
    with l Cons show ?thesis by (simp add: np_min_def np_max_def)
  qed
qed

lemma filter_constant_list:
  "\<forall>x\<in>set xs. x = v \<Longrightarrow> filter P xs = (if P v then xs else [])"
  by (induction xs) auto

lemma bin_counts_degenerate:
  assumes "\<forall>x\<in>set xs. x = v"
  shows "bin_counts xs (replicate 11 v) = replicate 9 0 @ [int (length xs)]"
proof (rule nth_equalityI)
  show "length (bin_counts xs (replicate 11 v)) = length (replicate 9 0 @ [int (length xs)])"
    by (simp add: bin_counts_def)
next
  fix j assume "j < length (bin_counts xs (replicate 11 v))"
  then have j: "j < 10" by (simp add: bin_counts_def)
  then have "in_bin (replicate 11 v) j v = (j = 9)"
    by (auto simp: in_bin_def)
  with j show "bin_counts xs (replicate 11 v) ! j = (replicate 9 0 @ [int (length xs)]) ! j"
    by (auto simp: bin_counts_def filter_constant_list [OF assms] nth_append)
qed

lemma bin_edges_degenerate: "bin_edges v v = replicate 11 v"
  by (simp add: bin_edges_def map_replicate_const)

text \<open>
  C7. The specification says that \<open>create_heatmap\<close> signals a computation error
  instead of producing a plot when every group's collection is empty or degenerate.
  This fails: for collections whose values all agree, the data of the plot is computed
  without any error. What holds: \<open>create_heatmap\<close> has no guard of its own.
  With no key the bounds \<open>(inf, -inf)\<close> go unchecked into \<open>np.linspace\<close>, which returns
  ten NaN edges and \<open>-inf\<close>, and the grid is empty; when all listed groups are present
  and one has an empty collection, the \<open>ValueError\<close> of \<open>np.min\<close> is raised as it is;
  when all values are equal to \<open>v\<close>, no error is raised, the eleven edges are all \<open>v\<close>,
  every group's count falls into the last bin, and the plot is made from that.
\<close>

theorem heatmap_unguarded:
  "heatmap_data data [] s = Inr (replicate 10 NaN @ [NInf], []) \<and>
   ((\<forall>k\<in>set keys. \<exists>xs. lookup_scores data k s = Inr xs) \<and>
    (\<exists>k\<in>set keys. lookup_scores data k s = Inr []) \<longrightarrow>
      heatmap_data data keys s = Inl zero_size_minimum \<and>
      create_heatmap render data keys yticks s title' path = Inl zero_size_minimum) \<and>
   (keys \<noteq> [] \<and> (\<forall>k\<in>set keys. lookup_scores data k s = Inr (coll k) \<and> set (coll k) = {v}) \<longrightarrow>
      heatmap_data data keys s =
        Inr (replicate 11 (Fin v), map (\<lambda>k. replicate 9 0 @ [int (length (coll k))]) keys) \<and>
      create_heatmap render data keys yticks s title' path =
        render (map (\<lambda>k. replicate 9 0 @ [int (length (coll k))]) keys)
               (replicate 11 (Fin v)) yticks s title' path)"
proof -
  have a: "heatmap_data data [] s = Inr (replicate 10 NaN @ [NInf], [])"
    by (simp add: heatmap_data_def np_linspace_inverted)
  have b: "(\<forall>k\<in>set keys. \<exists>xs. lookup_scores data k s = Inr xs) \<and>
    (\<exists>k\<in>set keys. lookup_scores data k s = Inr []) \<longrightarrow>
      heatmap_data data keys s = Inl zero_size_minimum \<and>
      create_heatmap render data keys yticks s title' path = Inl zero_size_minimum"
  proof
    assume h: "(\<forall>k\<in>set keys. \<exists>xs. lookup_scores data k s = Inr xs) \<and>
      (\<exists>k\<in>set keys. lookup_scores data k s = Inr [])"
    then have "heatmap_limits data s keys PInf NInf = Inl zero_size_minimum"
      by (intro heatmap_limits_empty_collection) auto
    then show "heatmap_data data keys s = Inl zero_size_minimum \<and>
      create_heatmap render data keys yticks s title' path = Inl zero_size_minimum"
      by (simp add: heatmap_data_def create_heatmap_def)
  qed
  have c: "keys \<noteq> [] \<and> (\<forall>k\<in>set keys. lookup_scores data k s = Inr (coll k) \<and> set (coll k) = {v}) \<longrightarrow>
      heatmap_data data keys s =
        Inr (replicate 11 (Fin v), map (\<lambda>k. replicate 9 0 @ [int (length (coll k))]) keys) \<and>
      create_heatmap render data keys yticks s title' path =
        render (map (\<lambda>k. replicate 9 0 @ [int (length (coll k))]) keys)
               (replicate 11 (Fin v)) yticks s title' path"
  proof
    assume h: "keys \<noteq> [] \<and> (\<forall>k\<in>set keys. lookup_scores data k s = Inr (coll k) \<and> set (coll k) = {v})"
    then have ne: "keys \<noteq> []"
      and all: "\<forall>k\<in>set keys. lookup_scores data k s = Inr (coll k) \<and> coll k \<noteq> []"
      by auto
    from h have u: "(\<Union>k\<in>set keys. set (coll k)) = {v}" by auto
    have rows: "map (\<lambda>k. bin_counts (coll k) (replicate 11 v)) keys
                  = map (\<lambda>k. replicate 9 0 @ [int (length (coll k))]) keys"
      using h by (intro map_cong refl bin_counts_degenerate) auto
    have d: "heatmap_data data keys s =
        Inr (replicate 11 (Fin v), map (\<lambda>k. replicate 9 0 @ [int (length (coll k))]) keys)"
      using heatmap_data_finite [OF all ne]
      by (simp add: u bin_edges_degenerate rows)
    then show "heatmap_data data keys s =
        Inr (replicate 11 (Fin v), map (\<lambda>k. replicate 9 0 @ [int (length (coll k))]) keys) \<and>
      create_heatmap render data keys yticks s title' path =
        render (map (\<lambda>k. replicate 9 0 @ [int (length (coll k))]) keys)
               (replicate 11 (Fin v)) yticks s title' path"
      by (simp add: create_heatmap_def)
  qed
  from a b c show ?thesis by blast
qed


lemma upt_11: "[0..<11] = [0, 1, 2, 3, 4, 5, 6, 7, 8, 9, 10 :: nat]"
  by code_simp

lemma upt_10: "[0..<10] = [0, 1, 2, 3, 4, 5, 6, 7, 8, 9 :: nat]"
  by code_simp

lemma bin_edges_unit:
  "bin_edges 0 1 = [0, 1 / 10, 2 / 10, 3 / 10, 4 / 10, 5 / 10, 6 / 10, 7 / 10, 8 / 10, 9 / 10, 1]"
  by (simp add: bin_edges_def upt_11)

lemma w1: "bin_counts [0, 1 / 2] (bin_edges 0 1) = [1, 0, 0, 0, 0, 1, 0, 0, 0, 0]"
  by (simp add: bin_edges_unit bin_counts_def upt_10 in_bin_def)

lemma w2: "bin_counts [1] (bin_edges 0 1) = [0, 0, 0, 0, 0, 0, 0, 0, 0, 1]"
  by (simp add: bin_edges_unit bin_counts_def upt_10 in_bin_def)

theorem heatmap_shared_bins_witness:
  "heatmap_data example_table [''a'', ''b''] ''Accuracy'' =
     Inr (map Fin [0, 1 / 10, 2 / 10, 3 / 10, 4 / 10, 5 / 10, 6 / 10, 7 / 10, 8 / 10, 9 / 10, 1],
          [[1, 0, 0, 0, 0, 1, 0, 0, 0, 0], [0, 0, 0, 0, 0, 0, 0, 0, 0, 1]])"
proof -
  let ?coll = "\<lambda>k. if k = ''a'' then [0, 1 / 2] else [1 :: real]"
  have len: "2 \<le> length [''a'', ''b'']" by simp
  have all: "\<forall>k\<in>set [''a'', ''b''].
               lookup_scores example_table k ''Accuracy'' = Inr (?coll k) \<and> ?coll k \<noteq> []"
    by (simp add: lookup_scores_def example_table_def)
  have mn: "global_min ?coll [''a'', ''b''] = 0"
    by (simp add: global_min_def)
  have mx: "global_max ?coll [''a'', ''b''] = 1"
    by (simp add: global_max_def)
  have "heatmap_data example_table [''a'', ''b''] ''Accuracy'' =
          Inr (map Fin (bin_edges 0 1),
               [bin_counts [0, 1 / 2] (bin_edges 0 1), bin_counts [1] (bin_edges 0 1)])"
    using heatmap_shared_bins [OF len all] by (simp add: mn mx)
  then show ?thesis
    unfolding w1 w2 by (simp add: bin_edges_unit)
qed

text \<open>Two groups whose scores all equal one half: the edges and counts are computed, and no
  error is raised.\<close>

theorem heatmap_degenerate_no_error:
  "heatmap_data degenerate_table [''a'', ''b''] ''Accuracy'' =
     Inr (replicate 11 (Fin (1 / 2)),
          [[0, 0, 0, 0, 0, 0, 0, 0, 0, 2], [0, 0, 0, 0, 0, 0, 0, 0, 0, 1]])"
proof -
  let ?coll = "\<lambda>k. if k = ''a'' then [1 / 2, 1 / 2] else [1 / 2 :: real]"
  have all: "\<forall>k\<in>set [''a'', ''b''].
               lookup_scores degenerate_table k ''Accuracy'' = Inr (?coll k) \<and> ?coll k \<noteq> []"
    by (simp add: lookup_scores_def degenerate_table_def)
  have u: "(\<Union>k\<in>set [''a'', ''b'']. set (?coll k)) = {1 / 2}"
    by simp
  have c1: "bin_counts [1 / 2, 1 / 2] (replicate 11 (1 / 2)) = replicate 9 0 @ [2]"
    using bin_counts_degenerate [of "[1 / 2, 1 / 2]" "1 / 2"] by simp
  have c2: "bin_counts [1 / 2] (replicate 11 (1 / 2)) = replicate 9 0 @ [1]"
    using bin_counts_degenerate [of "[1 / 2]" "1 / 2"] by simp
  have "heatmap_data degenerate_table [''a'', ''b''] ''Accuracy'' =
          Inr (replicate 11 (Fin (1 / 2)), [replicate 9 0 @ [2], replicate 9 0 @ [1]])"
    using heatmap_data_finite [OF all] by (simp add: u bin_edges_degenerate c1 c2)
  then show ?thesis
    by (simp add: numeral_eq_Suc)
qed

theorem heatmap_unguarded_witness:
  "heatmap_data degenerate_table [] ''Accuracy'' = Inr (replicate 10 NaN @ [NInf], []) \<and>
   heatmap_data (degenerate_table(''c'' \<mapsto> [''Accuracy'' \<mapsto> []])) [''a'', ''c''] ''Accuracy''
     = Inl zero_size_minimum \<and>
   heatmap_data degenerate_table [''a'', ''b''] ''Accuracy'' =
     Inr (replicate 11 (Fin (1 / 2)),
          [replicate 9 0 @ [2], replicate 9 0 @ [1]])"
proof -
  let ?coll = "\<lambda>k. if k = ''a'' then [1 / 2, 1 / 2] else [1 / 2 :: real]"
  let ?t = "degenerate_table(''c'' \<mapsto> [''Accuracy'' \<mapsto> []])"
  have e: "(\<forall>k\<in>set [''a'', ''c'']. \<exists>xs. lookup_scores ?t k ''Accuracy'' = Inr xs) \<and>
           (\<exists>k\<in>set [''a'', ''c'']. lookup_scores ?t k ''Accuracy'' = Inr [])"
    by (simp add: lookup_scores_def degenerate_table_def)
  have d: "[''a'', ''b''] \<noteq> [] \<and>
           (\<forall>k\<in>set [''a'', ''b''].
               lookup_scores degenerate_table k ''Accuracy'' = Inr (?coll k) \<and> set (?coll k) = {1 / 2})"
    by (simp add: lookup_scores_def degenerate_table_def)
  have 1: "heatmap_data degenerate_table [] ''Accuracy'' = Inr (replicate 10 NaN @ [NInf], [])"
    using heatmap_unguarded [where data = degenerate_table and s = "''Accuracy''"] by blast
  have 2: "heatmap_data ?t [''a'', ''c''] ''Accuracy'' = Inl zero_size_minimum"
    using heatmap_unguarded [where data = ?t and s = "''Accuracy''" and keys = "[''a'', ''c'']"] e
    by blast
  have 3: "heatmap_data degenerate_table [''a'', ''b''] ''Accuracy'' =
             Inr (replicate 11 (Fin (1 / 2)),
                  map (\<lambda>k. replicate 9 0 @ [int (length (?coll k))]) [''a'', ''b''])"
    using heatmap_unguarded [where data = degenerate_table and s = "''Accuracy''"
        and keys = "[''a'', ''b'']" and coll = ?coll and v = "1 / 2"] d
    by blast
  from 1 2 3 show ?thesis by simp
qed

end
